theory Spec2Isabelle
  imports Complex_Main
begin

section \<open>Population synthesis (synthpops, pop.py)\<close>

text \<open>
  A shallow embedding of \<^verbatim>\<open>Pop.__init__\<close> and \<^verbatim>\<open>Pop.generate\<close> of
  \<^verbatim>\<open>synthpops/pop.py\<close>. Python exceptions are values of \<open>py_error\<close>; a
  computation that may raise returns \<open>py_error + 'a\<close> with \<open>Inl\<close> the exception.

  The method \<^verbatim>\<open>generate\<close> reads the modules \<^verbatim>\<open>spdata\<close>, \<^verbatim>\<open>spb\<close>,
  \<^verbatim>\<open>spcnx\<close>, \<^verbatim>\<open>np\<close> and \<^verbatim>\<open>math\<close> and the options (\<^verbatim>\<open>with_school_types\<close>,
  the staff ages) by their bare names, none of which \<^verbatim>\<open>pop.py\<close> binds, and it reads
  its local names \<^verbatim>\<open>datadir\<close> and \<^verbatim>\<open>n\<close> before it assigns them. The lookup of
  names is part of the embedding of \<^verbatim>\<open>generate\<close>. The statements of the method are
  embedded as the stages that they run once the names are bound: there the options and
  tables are fields of records, the functions of the other modules of the package are
  parameters of a run, and the functions of numpy and sciris are modelled by what they
  compute.
\<close>

datatype py_error =
  NameError | UnboundLocalError | KeyError | IndexError | ValueError | OverflowError
  | AttributeError | TypeError

type_synonym uid = int
type_synonym age = int

subsection \<open>The contact caps\<close>

text \<open>
  \<^verbatim>\<open>sc.mergedicts(*args)\<close> of the sciris library starts from an empty dictionary and
  updates it with every argument from left to right; an argument that is \<^verbatim>\<open>None\<close> is
  skipped. A dictionary is a map, \<^verbatim>\<open>None\<close> is \<open>None\<close> of the option type.
\<close>

fun mergedicts :: "('k \<rightharpoonup> 'v) option list \<Rightarrow> ('k \<rightharpoonup> 'v)" where
  "mergedicts [] = Map.empty"
| "mergedicts (None # ds) = mergedicts ds"
| "mergedicts (Some d # ds) = (\<lambda>k. case mergedicts ds k of Some v \<Rightarrow> Some v | None \<Rightarrow> d k)"

text \<open>\<^verbatim>\<open>default_max_contacts = {'W': 20}\<close>\<close>

definition default_max_contacts :: "string \<rightharpoonup> int" where
  "default_max_contacts = [''W'' \<mapsto> 20]"

text \<open>
  \<^verbatim>\<open>self.max_contacts = sc.mergedicts(default_max_contacts, self.max_contacts)\<close>
\<close>

definition init_max_contacts :: "(string \<rightharpoonup> int) option \<Rightarrow> (string \<rightharpoonup> int)" where
  "init_max_contacts max_contacts = mergedicts [Some default_max_contacts, max_contacts]"

subsection \<open>The random generator\<close>

text \<open>
  The shared pseudo-random generator of numpy is a stream of raw draws; every sampling
  operation takes the next draw and leaves the rest of the stream. The three sampling
  functions are those of numpy: \<^verbatim>\<open>np.random.choice(a)\<close> returns some element of
  \<^verbatim>\<open>a\<close> and raises ValueError on an empty \<^verbatim>\<open>a\<close>;
  \<^verbatim>\<open>np.random.choice(a, p=p)\<close> raises ValueError unless \<^verbatim>\<open>p\<close> has the length
  of \<^verbatim>\<open>a\<close>, is non-negative and sums to one, and returns some element of positive
  probability; \<^verbatim>\<open>np.random.shuffle\<close> permutes a list. Each element that numpy can
  return is returned for some stream. Probabilities are exact rationals.
\<close>

type_synonym rng = "nat \<Rightarrow> nat"

definition rng_draw :: "rng \<Rightarrow> nat \<times> rng" where
  "rng_draw g = (g 0, \<lambda>i. g (Suc i))"

definition random_choice :: "'a list \<Rightarrow> rng \<Rightarrow> py_error + ('a \<times> rng)" where
  "random_choice a g =
     (if a = [] then Inl ValueError
      else case rng_draw g of (r, g') \<Rightarrow> Inr (a ! (r mod length a), g'))"

definition random_choice_p :: "'a list \<Rightarrow> rat list \<Rightarrow> rng \<Rightarrow> py_error + ('a \<times> rng)" where
  "random_choice_p a p g =
     (let cands = map fst (filter (\<lambda>(x, q). 0 < q) (zip a p))
      in if a = [] \<or> length p \<noteq> length a \<or> list_ex (\<lambda>q. q < 0) p \<or> sum_list p \<noteq> 1
            \<or> cands = []
         then Inl ValueError
         else case rng_draw g of (r, g') \<Rightarrow> Inr (cands ! (r mod length cands), g'))"

fun shuffle :: "'a list \<Rightarrow> rng \<Rightarrow> 'a list \<times> rng" where
  "shuffle [] g = ([], g)"
| "shuffle (x # xs) g =
     (case shuffle xs g of (ys, g1) \<Rightarrow>
        (case rng_draw g1 of (r, g2) \<Rightarrow>
           (take (r mod (length ys + 1)) ys @ x # drop (r mod (length ys + 1)) ys, g2)))"

subsection \<open>Python lists and dictionaries\<close>

text \<open>\<^verbatim>\<open>xs[0:i]\<close> and \<^verbatim>\<open>xs[i:]\<close>; a negative index counts from the end.\<close>

definition py_slice_to :: "'a list \<Rightarrow> int \<Rightarrow> 'a list" where
  "py_slice_to xs i = (if i < 0 then take (nat (int (length xs) + i)) xs else take (nat i) xs)"

definition py_slice_from :: "'a list \<Rightarrow> int \<Rightarrow> 'a list" where
  "py_slice_from xs i = (if i < 0 then drop (nat (int (length xs) + i)) xs else drop (nat i) xs)"

text \<open>
  A dictionary that the code iterates over is an association list with distinct keys:
  \<^verbatim>\<open>sorted([k for k in d.keys()])\<close> and \<^verbatim>\<open>[d[k] for k in keys]\<close>.
\<close>

definition sorted_keys :: "(int \<times> 'v) list \<Rightarrow> int list" where
  "sorted_keys d = sort (map fst d)"

definition values_at :: "(int \<times> 'v) list \<Rightarrow> int list \<Rightarrow> 'v list" where
  "values_at d ks = map (\<lambda>k. the (map_of d k)) ks"

text \<open>\<^verbatim>\<open>[d[k] for k in ks]\<close> on a dictionary that may lack a key.\<close>

fun lookup_all :: "('k \<rightharpoonup> 'v) \<Rightarrow> 'k list \<Rightarrow> py_error + 'v list" where
  "lookup_all d [] = Inr []"
| "lookup_all d (k # ks) =
     (case d k of
        None \<Rightarrow> Inl KeyError
      | Some v \<Rightarrow> (case lookup_all d ks of Inl e \<Rightarrow> Inl e | Inr vs \<Rightarrow> Inr (v # vs)))"

text \<open>A \<^verbatim>\<open>for\<close> loop over a list whose body updates a state and may raise.\<close>

fun for_each :: "('s \<Rightarrow> 'a \<Rightarrow> py_error + 's) \<Rightarrow> 'a list \<Rightarrow> 's \<Rightarrow> py_error + 's" where
  "for_each f [] s = Inr s"
| "for_each f (x # xs) s = (case f s x of Inl e \<Rightarrow> Inl e | Inr s' \<Rightarrow> for_each f xs s')"

subsection \<open>Facility residents\<close>

text \<open>
  \<^verbatim>\<open>
  all_residents = []
  for a in expected_users_by_age:
      all_residents += [a] * expected_users_by_age[a]
  np.random.shuffle(all_residents)
  \<close>
  The dictionary \<^verbatim>\<open>expected_users_by_age\<close> (ages 60 to 100 in insertion order) comes out
  of floating-point arithmetic on the census tables and is taken as given.
\<close>

definition all_residents_of :: "(age \<times> int) list \<Rightarrow> rng \<Rightarrow> age list \<times> rng" where
  "all_residents_of expected_users_by_age g =
     shuffle (concat (map (\<lambda>(a, c). replicate (nat c) a) expected_users_by_age)) g"

text \<open>
  \<^verbatim>\<open>
  while len(all_residents) > 0:
      sb = np.random.choice(size_bracket_keys, p=size_distr_array)
      sb_range = KC_residents_size_brackets[sb]
      size = np.random.choice(sb_range)
      if size > len(all_residents):
          size = len(all_residents)
      new_facility = all_residents[0:size]
      facilities.append(new_facility)
      all_residents = all_residents[size:]
  \<close>
  The loop need not end (a bracket may hold the size 0), so the result is an option:
  \<open>None\<close> is a run that never leaves the loop.
\<close>

partial_function (option) place_residents ::
  "(int \<times> rat) list \<Rightarrow> (int \<rightharpoonup> int list) \<Rightarrow> age list \<Rightarrow> age list list \<Rightarrow> rng
     \<Rightarrow> (py_error + (age list list \<times> rng)) option" where
  "place_residents KC_resident_size_distr KC_residents_size_brackets all_residents facilities g =
     (if length all_residents > 0 then
        (case random_choice_p (sorted_keys KC_resident_size_distr)
                (values_at KC_resident_size_distr (sorted_keys KC_resident_size_distr)) g of
           Inl e \<Rightarrow> Some (Inl e)
         | Inr (sb, g1) \<Rightarrow>
            (case KC_residents_size_brackets sb of
               None \<Rightarrow> Some (Inl KeyError)
             | Some sb_range \<Rightarrow>
                (case random_choice sb_range g1 of
                   Inl e \<Rightarrow> Some (Inl e)
                 | Inr (size0, g2) \<Rightarrow>
                    (let size = (if size0 > int (length all_residents)
                                 then int (length all_residents) else size0);
                         new_facility = py_slice_to all_residents size
                     in place_residents KC_resident_size_distr KC_residents_size_brackets
                          (py_slice_from all_residents size) (facilities @ [new_facility]) g2))))
      else Some (Inr (facilities, g)))"

text \<open>\<^verbatim>\<open>n_nonltcf = n - np.sum([len(f) for f in facilities])\<close>\<close>

definition n_nonltcf :: "int \<Rightarrow> age list list \<Rightarrow> int" where
  "n_nonltcf n facilities = n - int (sum_list (map length facilities))"

subsection \<open>Household sizes\<close>

text \<open>
  Modelled from the spec: \<^verbatim>\<open>spcnx.generate_household_sizes_from_fixed_pop_size\<close> is
  called by \<^verbatim>\<open>generate\<close> and defined in another module, outside \<^verbatim>\<open>pop.py\<close>. The spec
  (4.3): "sample a sequence of household sizes summing to the remaining (non-facility)
  population count [...] Households are not sized to exceed remaining population; the last
  household absorbs any remainder", and (3) a household has "size \<ge> 1". Sizes are sampled
  from the household-size distribution (size, probability) until the count is reached; a
  sampled size below 1 is an invalid distribution, and no sequence of sizes sums to a
  negative count.
\<close>

function generate_household_sizes_from_fixed_pop_size ::
  "int \<Rightarrow> (int \<times> rat) list \<Rightarrow> rng \<Rightarrow> py_error + (int list \<times> rng)" where
  "generate_household_sizes_from_fixed_pop_size N hh_size_distr g =
     (if N < 0 then Inl ValueError
      else if N = 0 then Inr ([], g)
      else (case random_choice_p (map fst hh_size_distr) (map snd hh_size_distr) g of
              Inl e \<Rightarrow> Inl e
            | Inr (s, g1) \<Rightarrow>
               if s < 1 then Inl ValueError
               else (case generate_household_sizes_from_fixed_pop_size (N - min s N) hh_size_distr g1 of
                       Inl e \<Rightarrow> Inl e
                     | Inr (sizes, g2) \<Rightarrow> Inr (min s N # sizes, g2))))"
  by pat_completeness auto
termination
  by (relation "measure (\<lambda>(N, d, g). nat N)") auto

declare generate_household_sizes_from_fixed_pop_size.simps [simp del]

subsection \<open>The potential-worker pools\<close>

text \<open>
  The three dictionaries that the workforce stages share:
  \<^verbatim>\<open>potential_worker_uids\<close> (uid to age), \<^verbatim>\<open>potential_worker_uids_by_age\<close> (age to
  list of uids) and \<^verbatim>\<open>workers_by_age_to_assign_count\<close> (age to remaining count).
\<close>

record worker_pools =
  potential_worker_uids :: "uid \<rightharpoonup> age"
  potential_worker_uids_by_age :: "age \<rightharpoonup> uid list"
  workers_by_age_to_assign_count :: "age \<rightharpoonup> int"

text \<open>
  \<^verbatim>\<open>
  for nf, fc in enumerate(facilities_by_uids):
      for uid in fc:
          aindex = age_by_uid_dic[uid]
          if uid in potential_worker_uids:
              potential_worker_uids_by_age[aindex].remove(uid)
              potential_worker_uids.pop(uid, None)
              if workers_by_age_to_assign_count[aindex] > 0:
                  workers_by_age_to_assign_count[aindex] -= 1
  \<close>
  A missing key raises KeyError, \<^verbatim>\<open>list.remove\<close> of an absent element ValueError.
\<close>

definition remove_resident :: "(uid \<rightharpoonup> age) \<Rightarrow> worker_pools \<Rightarrow> uid \<Rightarrow> py_error + worker_pools" where
  "remove_resident age_by_uid_dic st uid =
     (case age_by_uid_dic uid of
        None \<Rightarrow> Inl KeyError
      | Some aindex \<Rightarrow>
          if potential_worker_uids st uid \<noteq> None then
            (case potential_worker_uids_by_age st aindex of
               None \<Rightarrow> Inl KeyError
             | Some l \<Rightarrow>
                 if uid \<notin> set l then Inl ValueError
                 else (case workers_by_age_to_assign_count st aindex of
                         None \<Rightarrow> Inl KeyError
                       | Some c \<Rightarrow>
                           Inr (st\<lparr>potential_worker_uids_by_age :=
                                       (potential_worker_uids_by_age st)(aindex \<mapsto> remove1 uid l),
                                    potential_worker_uids := (potential_worker_uids st)(uid := None),
                                    workers_by_age_to_assign_count :=
                                       (if c > 0 then (workers_by_age_to_assign_count st)(aindex \<mapsto> c - 1)
                                        else workers_by_age_to_assign_count st)\<rparr>)))
          else Inr st)"

definition remove_residents_from_workers ::
  "(uid \<rightharpoonup> age) \<Rightarrow> uid list list \<Rightarrow> worker_pools \<Rightarrow> py_error + worker_pools" where
  "remove_residents_from_workers age_by_uid_dic facilities_by_uids st =
     for_each (\<lambda>st fc. for_each (remove_resident age_by_uid_dic) fc st) facilities_by_uids st"

subsection \<open>Facility staff\<close>

text \<open>
  \<^verbatim>\<open>
  a_prob = np.array([workers_by_age_to_assign_count[a] for a in staff_age_range])
  a_prob = a_prob/np.sum(a_prob)
  aindex = np.random.choice(a=staff_age_range, p=a_prob)
  \<close>
  When the counts sum to zero the division yields NaN (or an empty array) and
  \<^verbatim>\<open>np.random.choice\<close> raises ValueError.
\<close>

definition choose_staff_age :: "age list \<Rightarrow> (age \<rightharpoonup> int) \<Rightarrow> rng \<Rightarrow> py_error + (age \<times> rng)" where
  "choose_staff_age staff_age_range counts g =
     (case lookup_all counts staff_age_range of
        Inl e \<Rightarrow> Inl e
      | Inr a_prob \<Rightarrow>
          if sum_list a_prob = 0 then Inl ValueError
          else random_choice_p staff_age_range
                 (map (\<lambda>c. rat_of_int c / rat_of_int (sum_list a_prob)) a_prob) g)"

text \<open>
  \<^verbatim>\<open>
  uid = potential_worker_uids_by_age[aindex][0]
  potential_worker_uids_by_age[aindex].remove(uid)
  potential_worker_uids.pop(uid, None)
  workers_by_age_to_assign_count[aindex] -= 1
  \<close>
\<close>

definition draw_staff_member ::
  "age list \<Rightarrow> worker_pools \<Rightarrow> rng \<Rightarrow> py_error + (age \<times> uid \<times> worker_pools \<times> rng)" where
  "draw_staff_member staff_age_range st g =
     (case choose_staff_age staff_age_range (workers_by_age_to_assign_count st) g of
        Inl e \<Rightarrow> Inl e
      | Inr (aindex, g') \<Rightarrow>
          (case potential_worker_uids_by_age st aindex of
             None \<Rightarrow> Inl KeyError
           | Some [] \<Rightarrow> Inl IndexError
           | Some (uid # rest) \<Rightarrow>
               (case workers_by_age_to_assign_count st aindex of
                  None \<Rightarrow> Inl KeyError
                | Some c \<Rightarrow>
                    Inr (aindex, uid,
                         st\<lparr>potential_worker_uids_by_age :=
                               (potential_worker_uids_by_age st)(aindex \<mapsto> remove1 uid (uid # rest)),
                            potential_worker_uids := (potential_worker_uids st)(uid := None),
                            workers_by_age_to_assign_count :=
                               (workers_by_age_to_assign_count st)(aindex \<mapsto> c - 1)\<rparr>,
                         g'))))"

text \<open>
  \<^verbatim>\<open>for i in range(n_staff): ... new_staff.append(aindex); new_staff_uids.append(uid)\<close>
\<close>

fun draw_staff ::
  "age list \<Rightarrow> nat \<Rightarrow> age list \<Rightarrow> uid list \<Rightarrow> worker_pools \<Rightarrow> rng
     \<Rightarrow> py_error + (age list \<times> uid list \<times> worker_pools \<times> rng)" where
  "draw_staff staff_age_range 0 new_staff new_staff_uids st g = Inr (new_staff, new_staff_uids, st, g)"
| "draw_staff staff_age_range (Suc k) new_staff new_staff_uids st g =
     (case draw_staff_member staff_age_range st g of
        Inl e \<Rightarrow> Inl e
      | Inr (aindex, uid, st', g') \<Rightarrow>
          draw_staff staff_age_range k (new_staff @ [aindex]) (new_staff_uids @ [uid]) st' g')"

subsection \<open>Double-precision arithmetic\<close>

text \<open>
  The staff count is computed in floating point: \<^verbatim>\<open>np.mean\<close> returns a
  \<^verbatim>\<open>numpy.float64\<close>, and the two divisions that follow are divisions of IEEE 754
  binary64 numbers (53 significant bits, exponents from -1022 to 1023, subnormal numbers,
  rounding to nearest with ties to even). A double is a rational, an infinity or NaN; the
  two zeros are not distinguished, since \<^verbatim>\<open>math.ceil\<close> treats them alike and raises
  on both infinities.
\<close>

datatype pyfloat = Finite rat | PInf | NInf | NaN

text \<open>The number of binary digits of a natural number.\<close>

fun bitlen :: "nat \<Rightarrow> nat" where
  "bitlen n = (if n = 0 then 0 else Suc (bitlen (n div 2)))"

declare bitlen.simps [simp del]

text \<open>The exponent \<open>e\<close> with \<open>2 ^ e \<le> a < 2 ^ (e + 1)\<close>, for a positive \<open>a\<close>.\<close>

definition floor_log2 :: "rat \<Rightarrow> int" where
  "floor_log2 a =
     (if 1 \<le> a then int (bitlen (nat \<lfloor>a\<rfloor>)) - 1 else - int (bitlen (nat \<lceil>1 / a\<rceil> - 1)))"

definition round_half_even :: "rat \<Rightarrow> int" where
  "round_half_even y =
     (if y - of_int \<lfloor>y\<rfloor> < 1 / 2 then \<lfloor>y\<rfloor>
      else if 1 / 2 < y - of_int \<lfloor>y\<rfloor> then \<lfloor>y\<rfloor> + 1
      else if even \<lfloor>y\<rfloor> then \<lfloor>y\<rfloor> else \<lfloor>y\<rfloor> + 1)"

text \<open>
  The spacing of the doubles around a positive \<open>a\<close> is \<open>2 powi ulp_exponent a\<close>: 52
  binary places below the leading bit, and never below \<open>2 powi (- 1074)\<close>, the smallest
  subnormal number.
\<close>

definition ulp_exponent :: "rat \<Rightarrow> int" where
  "ulp_exponent a = max (floor_log2 a - 52) (- 1074)"

definition round_to_ulp :: "rat \<Rightarrow> rat" where
  "round_to_ulp a = of_int (round_half_even (a / 2 powi ulp_exponent a)) * 2 powi ulp_exponent a"

text \<open>The double nearest to a rational; a result of \<open>2 ^ 1024\<close> or more overflows.\<close>

definition fl :: "rat \<Rightarrow> pyfloat" where
  "fl q =
     (if q = 0 then Finite 0
      else if 2 ^ 1024 \<le> round_to_ulp \<bar>q\<bar> then (if 0 < q then PInf else NInf)
      else Finite (sgn q * round_to_ulp \<bar>q\<bar>))"

text \<open>
  Division of \<^verbatim>\<open>numpy.float64\<close> values: a division by zero gives an infinity or NaN
  (with a warning), not an exception.
\<close>

fun fdiv :: "pyfloat \<Rightarrow> pyfloat \<Rightarrow> pyfloat" where
  "fdiv NaN y = NaN"
| "fdiv x NaN = NaN"
| "fdiv (Finite x) (Finite y) =
     (if y = 0 then (if x = 0 then NaN else if 0 < x then PInf else NInf) else fl (x / y))"
| "fdiv (Finite x) y = Finite 0"
| "fdiv x (Finite y) = (if (x = PInf) = (0 \<le> y) then PInf else NInf)"
| "fdiv x y = NaN"

text \<open>
  \<^verbatim>\<open>math.ceil\<close> raises ValueError on NaN and OverflowError on an infinity.
\<close>

fun py_ceil :: "pyfloat \<Rightarrow> py_error + int" where
  "py_ceil (Finite v) = Inr \<lceil>v\<rceil>"
| "py_ceil NaN = Inl ValueError"
| "py_ceil x = Inl OverflowError"

subsection \<open>The staff of a facility\<close>

text \<open>
  \<^verbatim>\<open>
  resident_staff_ratio = np.mean(sb_range)
  resident_staff_ratio = resident_staff_ratio/3.
  n_staff = int(math.ceil(n_residents/resident_staff_ratio))
  \<close>
  The mean of the bracket is numpy's: \<open>mean\<close> is the double that \<^verbatim>\<open>np.mean\<close>
  returns on a bracket (NaN on an empty one). The integer \<^verbatim>\<open>n_residents\<close> is converted
  to a double for the division, which fails with OverflowError on an integer too large
  for a double.
\<close>

definition staff_count :: "(rat list \<Rightarrow> pyfloat) \<Rightarrow> nat \<Rightarrow> rat list \<Rightarrow> py_error + int" where
  "staff_count mean n_residents sb_range =
     (let resident_staff_ratio = mean sb_range;
          resident_staff_ratio = fdiv resident_staff_ratio (Finite 3)
      in case fl (of_nat n_residents) of
           Finite x \<Rightarrow> py_ceil (fdiv (Finite x) resident_staff_ratio)
         | _ \<Rightarrow> Inl OverflowError)"

text \<open>
  The tables and options of the staff stage, and the mean that numpy computes on a ratio
  bracket. The order in which \<^verbatim>\<open>np.mean\<close> adds the elements of a bracket is numpy's
  own, so the function is part of the environment of the stage, like the tables.
\<close>

record staffing_data =
  KC_ratio_distr :: "(int \<times> rat) list"
  KC_ratio_brackets :: "int \<rightharpoonup> rat list"
  ltcf_staff_age_min :: int
  ltcf_staff_age_max :: int
  np_mean :: "rat list \<Rightarrow> pyfloat"

text \<open>\<^verbatim>\<open>staff_age_range = np.arange(ltcf_staff_age_min, ltcf_staff_age_max + 1)\<close>\<close>

definition staff_age_range :: "staffing_data \<Rightarrow> age list" where
  "staff_age_range sd = [ltcf_staff_age_min sd..ltcf_staff_age_max sd]"

text \<open>The body of \<^verbatim>\<open>for nf, fc in enumerate(facilities)\<close> for one facility.\<close>

definition staff_facility ::
  "staffing_data \<Rightarrow> 'a list \<Rightarrow> worker_pools \<Rightarrow> rng
     \<Rightarrow> py_error + (age list \<times> uid list \<times> worker_pools \<times> rng)" where
  "staff_facility sd fc st g =
     (case random_choice_p (sorted_keys (KC_ratio_distr sd))
             (values_at (KC_ratio_distr sd) (sorted_keys (KC_ratio_distr sd))) g of
        Inl e \<Rightarrow> Inl e
      | Inr (sb, g1) \<Rightarrow>
          (case KC_ratio_brackets sd sb of
             None \<Rightarrow> Inl KeyError
           | Some sb_range \<Rightarrow>
               (case staff_count (np_mean sd) (length fc) sb_range of
                  Inl e \<Rightarrow> Inl e
                | Inr n_staff \<Rightarrow> draw_staff (staff_age_range sd) (nat n_staff) [] [] st g1)))"

fun assign_facility_staff ::
  "staffing_data \<Rightarrow> 'a list list \<Rightarrow> age list list \<Rightarrow> uid list list \<Rightarrow> worker_pools \<Rightarrow> rng
     \<Rightarrow> py_error + (age list list \<times> uid list list \<times> worker_pools \<times> rng)" where
  "assign_facility_staff sd [] facilities_staff facilities_staff_uids st g =
     Inr (facilities_staff, facilities_staff_uids, st, g)"
| "assign_facility_staff sd (fc # facilities) facilities_staff facilities_staff_uids st g =
     (case staff_facility sd fc st g of
        Inl e \<Rightarrow> Inl e
      | Inr (new_staff, new_staff_uids, st', g') \<Rightarrow>
          assign_facility_staff sd facilities (facilities_staff @ [new_staff])
            (facilities_staff_uids @ [new_staff_uids]) st' g')"

text \<open>
  The number of uids that the potential-worker pool holds for the ages of a range, and
  the invariant of the remaining-count dictionary.
\<close>

definition staff_supply :: "age list \<Rightarrow> worker_pools \<Rightarrow> nat" where
  "staff_supply ages st =
     sum_list (map (\<lambda>a. case potential_worker_uids_by_age st a of None \<Rightarrow> 0 | Some l \<Rightarrow> length l) ages)"

definition counts_nonneg :: "worker_pools \<Rightarrow> bool" where
  "counts_nonneg st = (\<forall>a c. workers_by_age_to_assign_count st a = Some c \<longrightarrow> 0 \<le> c)"

text \<open>
  The two pool dictionaries agree when every uid listed under an age is a potential
  worker of that age and is listed once.
\<close>

definition pools_consistent :: "worker_pools \<Rightarrow> bool" where
  "pools_consistent p =
     (\<forall>a l. potential_worker_uids_by_age p a = Some l
            \<longrightarrow> distinct l \<and> (\<forall>u\<in>set l. potential_worker_uids p u = Some a))"

definition listed_by_age :: "worker_pools \<Rightarrow> uid \<Rightarrow> bool" where
  "listed_by_age p u = (\<exists>a l. potential_worker_uids_by_age p a = Some l \<and> u \<in> set l)"

subsection \<open>The contact network\<close>

text \<open>
  The layers of the contact network and the record of one individual. The contact sets
  are Python sets when \<^verbatim>\<open>generate\<close> builds them and lists once the constructor has
  converted them, so the record is polymorphic in the container.
\<close>

datatype layer = Household | School | Workplace | Facility | Community

record 'c person =
  p_age :: age
  hhid :: "nat option"
  scid :: "nat option"
  wpid :: "nat option"
  snfid :: "nat option"
  contacts :: "layer \<Rightarrow> 'c"

text \<open>
  Modelled from the spec: \<^verbatim>\<open>spcnx.make_contacts_from_microstructure_objects\<close> is called
  by \<^verbatim>\<open>generate\<close> and defined in another module, outside \<^verbatim>\<open>pop.py\<close>. The spec (4.6): "for
  every household, facility, school [...] and workplace, emits a fully-connected contact
  set among members, subject to a configurable maximum degree per layer [...] achieved by
  random sub-sampling of edges when a group exceeds the cap. [...] Output is symmetric:
  contact sets are mirrored across both endpoints." A group of a layer is a list of uids
  (a school with its teachers and its other staff, a facility with its staff); the
  sub-sampling is a predicate on the undirected edge, given by its smaller and its larger
  endpoint. The community layer gets no group. Each individual carries the index of its
  household, school, workplace and facility.
\<close>

definition merge_groups :: "uid list list \<Rightarrow> uid list list \<Rightarrow> uid list list" where
  "merge_groups xs ys = map (\<lambda>i. xs ! i @ (if i < length ys then ys ! i else [])) [0..<length xs]"

definition group_id :: "uid list list \<Rightarrow> uid \<Rightarrow> nat option" where
  "group_id groups u =
     (case filter (\<lambda>i. u \<in> set (groups ! i)) [0..<length groups] of [] \<Rightarrow> None | i # _ \<Rightarrow> Some i)"

definition group_contacts :: "(uid \<Rightarrow> uid \<Rightarrow> bool) \<Rightarrow> uid list list \<Rightarrow> uid \<Rightarrow> uid set" where
  "group_contacts keep groups u =
     set (concat (map (\<lambda>grp. if u \<in> set grp
                              then filter (\<lambda>v. v \<noteq> u \<and> keep (min u v) (max u v)) grp
                              else []) groups))"

definition layer_groups ::
  "uid list list \<Rightarrow> uid list list \<Rightarrow> uid list list \<Rightarrow> uid list list \<Rightarrow> uid list list
     \<Rightarrow> uid list list \<Rightarrow> uid list list \<Rightarrow> layer \<Rightarrow> uid list list" where
  "layer_groups homes_by_uids schools_by_uids teachers_by_uids non_teaching_staff_uids
       workplaces_by_uids facilities_by_uids facilities_staff_uids l =
     (case l of
        Household \<Rightarrow> homes_by_uids
      | School \<Rightarrow> merge_groups (merge_groups schools_by_uids teachers_by_uids) non_teaching_staff_uids
      | Workplace \<Rightarrow> workplaces_by_uids
      | Facility \<Rightarrow> merge_groups facilities_by_uids facilities_staff_uids
      | Community \<Rightarrow> [])"

definition make_contacts_from_microstructure_objects ::
  "(layer \<Rightarrow> uid \<Rightarrow> uid \<Rightarrow> bool) \<Rightarrow> (uid \<rightharpoonup> age) \<Rightarrow> uid list list \<Rightarrow> uid list list \<Rightarrow> uid list list
     \<Rightarrow> uid list list \<Rightarrow> uid list list \<Rightarrow> uid list list \<Rightarrow> uid list list
     \<Rightarrow> (uid \<rightharpoonup> uid set person)" where
  "make_contacts_from_microstructure_objects keep age_by_uid_dic homes_by_uids schools_by_uids
       teachers_by_uids non_teaching_staff_uids workplaces_by_uids facilities_by_uids
       facilities_staff_uids =
     (let groups = layer_groups homes_by_uids schools_by_uids teachers_by_uids
                     non_teaching_staff_uids workplaces_by_uids facilities_by_uids
                     facilities_staff_uids
      in (\<lambda>u. case age_by_uid_dic u of
                 None \<Rightarrow> None
               | Some a \<Rightarrow>
                   Some \<lparr>p_age = a, hhid = group_id (groups Household) u,
                         scid = group_id (groups School) u, wpid = group_id (groups Workplace) u,
                         snfid = group_id (groups Facility) u,
                         contacts = (\<lambda>l. group_contacts (keep l) (groups l) u)\<rparr>))"

subsection \<open>The stages of generate\<close>

text \<open>
  The tables and options that \<^verbatim>\<open>generate\<close> reads: the population size \<^verbatim>\<open>n\<close>, the
  expected facility users by age, the facility-size and household-size distributions, the
  school-type switch and the staffing tables.
\<close>

record gen_data =
  pop_n :: int
  expected_users_by_age :: "(age \<times> int) list"
  KC_resident_size_distr :: "(int \<times> rat) list"
  KC_residents_size_brackets :: "int \<rightharpoonup> int list"
  household_size_distr :: "(int \<times> rat) list"
  with_school_types :: bool
  staffing :: staffing_data

text \<open>
  The functions of \<^verbatim>\<open>synthpops.contact_networks\<close> that \<^verbatim>\<open>generate\<close> calls, and
  \<^verbatim>\<open>custom_generate_all_households\<close>, are defined outside \<^verbatim>\<open>pop.py\<close>. A run is
  relative to them: each is a function of its arguments and of the shared generator, may
  raise, and returns what \<^verbatim>\<open>generate\<close> goes on to use.

  Modelled from the spec: \<^verbatim>\<open>sp.set_seed\<close> is defined outside \<^verbatim>\<open>pop.py\<close> as well. The spec (5):
  "deterministic given a fixed random seed: every sampling operation consumes a shared
  pseudo-random generator in a fixed, order-dependent sequence"; \<open>set_seed\<close> gives the
  state in which a seed puts the shared generator, and \<open>contact_sampler\<close> the edges
  that the sub-sampling of the contact stage keeps, as a function of the generator.
\<close>

record collaborators =
  set_seed :: "int \<Rightarrow> rng"
  custom_generate_all_households :: "int \<Rightarrow> int list \<Rightarrow> rng \<Rightarrow> py_error + (age list list \<times> rng)"
  assign_uids_by_homes :: "age list list \<Rightarrow> rng \<Rightarrow> py_error + (uid list list \<times> (uid \<rightharpoonup> age) \<times> rng)"
  get_uids_in_school :: "int \<Rightarrow> (uid \<rightharpoonup> age) \<Rightarrow> uid list list \<Rightarrow> rng \<Rightarrow> py_error + ((uid \<rightharpoonup> age) \<times> rng)"
  send_students_to_school_with_school_types :: "(uid \<rightharpoonup> age) \<Rightarrow> rng \<Rightarrow> py_error + (uid list list \<times> rng)"
  send_students_to_school :: "(uid \<rightharpoonup> age) \<Rightarrow> rng \<Rightarrow> py_error + (uid list list \<times> rng)"
  get_uids_potential_workers :: "uid list list \<Rightarrow> (uid \<rightharpoonup> age) \<Rightarrow> py_error + worker_pools"
  assign_teachers_to_schools ::
    "uid list list \<Rightarrow> worker_pools \<Rightarrow> rng \<Rightarrow> py_error + (uid list list \<times> worker_pools \<times> rng)"
  assign_additional_staff_to_schools ::
    "uid list list \<Rightarrow> uid list list \<Rightarrow> worker_pools \<Rightarrow> rng
       \<Rightarrow> py_error + (uid list list \<times> worker_pools \<times> rng)"
  assign_rest_of_workers :: "worker_pools \<Rightarrow> rng \<Rightarrow> py_error + (uid list list \<times> worker_pools \<times> rng)"
  contact_sampler :: "rng \<Rightarrow> layer \<Rightarrow> uid \<Rightarrow> uid \<Rightarrow> bool"

text \<open>The local variables of \<^verbatim>\<open>generate\<close> that outlive a stage.\<close>

record gen_state =
  rng_state :: rng
  facilities :: "age list list"
  hh_sizes :: "int list"
  homes :: "age list list"
  homes_by_uids :: "uid list list"
  age_by_uid_dic :: "uid \<rightharpoonup> age"
  facilities_by_uids :: "uid list list"
  syn_school_uids :: "uid list list"
  pools :: worker_pools
  syn_teacher_uids :: "uid list list"
  syn_non_teaching_staff_uids :: "uid list list"
  facilities_staff :: "age list list"
  facilities_staff_uids :: "uid list list"
  syn_workplace_uids :: "uid list list"
  popdict :: "uid \<rightharpoonup> uid set person"

definition initial_state :: "rng \<Rightarrow> gen_state" where
  "initial_state g =
     \<lparr>rng_state = g, facilities = [], hh_sizes = [], homes = [], homes_by_uids = [],
      age_by_uid_dic = Map.empty, facilities_by_uids = [], syn_school_uids = [],
      pools = \<lparr>potential_worker_uids = Map.empty, potential_worker_uids_by_age = Map.empty,
               workers_by_age_to_assign_count = Map.empty\<rparr>,
      syn_teacher_uids = [], syn_non_teaching_staff_uids = [], facilities_staff = [],
      facilities_staff_uids = [], syn_workplace_uids = [], popdict = Map.empty\<rparr>"

text \<open>
  The body of \<^verbatim>\<open>generate\<close> from the shuffling of the residents (line 294) to the call of
  \<^verbatim>\<open>make_contacts_from_microstructure_objects\<close> (line 472) is a sequence of stages, each
  a run of consecutive statements, in the order of the source.
\<close>

datatype stage =
  PlaceResidents | GenerateHouseholds | AssignUids | AssignStudents | FindPotentialWorkers
  | RemoveResidents | AssignTeachers | AssignSchoolStaff | AssignFacilityStaff
  | AssignWorkplaces | MakeContacts

fun run_stage :: "collaborators \<Rightarrow> gen_data \<Rightarrow> stage \<Rightarrow> gen_state \<Rightarrow> (py_error + gen_state) option" where
  "run_stage ext d PlaceResidents st =
     (case all_residents_of (expected_users_by_age d) (rng_state st) of
        (all_residents, g1) \<Rightarrow>
          (case place_residents (KC_resident_size_distr d) (KC_residents_size_brackets d)
                  all_residents [] g1 of
             None \<Rightarrow> None
           | Some (Inl e) \<Rightarrow> Some (Inl e)
           | Some (Inr (fs, g2)) \<Rightarrow> Some (Inr (st\<lparr>facilities := fs, rng_state := g2\<rparr>))))"
| "run_stage ext d GenerateHouseholds st =
     (case generate_household_sizes_from_fixed_pop_size (n_nonltcf (pop_n d) (facilities st))
             (household_size_distr d) (rng_state st) of
        Inl e \<Rightarrow> Some (Inl e)
      | Inr (sizes, g1) \<Rightarrow>
          (case custom_generate_all_households ext (n_nonltcf (pop_n d) (facilities st)) sizes g1 of
             Inl e \<Rightarrow> Some (Inl e)
           | Inr (hs, g2) \<Rightarrow>
               Some (Inr (st\<lparr>hh_sizes := sizes, homes := facilities st @ hs, rng_state := g2\<rparr>))))"
| "run_stage ext d AssignUids st =
     (case assign_uids_by_homes ext (homes st) (rng_state st) of
        Inl e \<Rightarrow> Some (Inl e)
      | Inr (hbu, abu, g1) \<Rightarrow>
          Some (Inr (st\<lparr>homes_by_uids := hbu, age_by_uid_dic := abu,
                        facilities_by_uids := py_slice_to hbu (int (length (facilities st))),
                        rng_state := g1\<rparr>)))"
| "run_stage ext d AssignStudents st =
     (case get_uids_in_school ext (n_nonltcf (pop_n d) (facilities st)) (age_by_uid_dic st)
             (homes_by_uids st) (rng_state st) of
        Inl e \<Rightarrow> Some (Inl e)
      | Inr (uids_in_school, g1) \<Rightarrow>
          (case (if with_school_types d
                 then send_students_to_school_with_school_types ext uids_in_school g1
                 else send_students_to_school ext uids_in_school g1) of
             Inl e \<Rightarrow> Some (Inl e)
           | Inr (ssu, g2) \<Rightarrow> Some (Inr (st\<lparr>syn_school_uids := ssu, rng_state := g2\<rparr>))))"
| "run_stage ext d FindPotentialWorkers st =
     (case get_uids_potential_workers ext (syn_school_uids st) (age_by_uid_dic st) of
        Inl e \<Rightarrow> Some (Inl e)
      | Inr p \<Rightarrow> Some (Inr (st\<lparr>pools := p\<rparr>)))"
| "run_stage ext d RemoveResidents st =
     (case remove_residents_from_workers (age_by_uid_dic st) (facilities_by_uids st) (pools st) of
        Inl e \<Rightarrow> Some (Inl e)
      | Inr p \<Rightarrow> Some (Inr (st\<lparr>pools := p\<rparr>)))"
| "run_stage ext d AssignTeachers st =
     (case assign_teachers_to_schools ext (syn_school_uids st) (pools st) (rng_state st) of
        Inl e \<Rightarrow> Some (Inl e)
      | Inr (stu, p, g1) \<Rightarrow> Some (Inr (st\<lparr>syn_teacher_uids := stu, pools := p, rng_state := g1\<rparr>)))"
| "run_stage ext d AssignSchoolStaff st =
     (case assign_additional_staff_to_schools ext (syn_school_uids st) (syn_teacher_uids st)
             (pools st) (rng_state st) of
        Inl e \<Rightarrow> Some (Inl e)
      | Inr (ssu, p, g1) \<Rightarrow>
          Some (Inr (st\<lparr>syn_non_teaching_staff_uids := ssu, pools := p, rng_state := g1\<rparr>)))"
| "run_stage ext d AssignFacilityStaff st =
     (case assign_facility_staff (staffing d) (facilities st) [] [] (pools st) (rng_state st) of
        Inl e \<Rightarrow> Some (Inl e)
      | Inr (fs, fsu, p, g1) \<Rightarrow>
          Some (Inr (st\<lparr>facilities_staff := fs, facilities_staff_uids := fsu, pools := p,
                        rng_state := g1\<rparr>)))"
| "run_stage ext d AssignWorkplaces st =
     (case assign_rest_of_workers ext (pools st) (rng_state st) of
        Inl e \<Rightarrow> Some (Inl e)
      | Inr (swu, p, g1) \<Rightarrow> Some (Inr (st\<lparr>syn_workplace_uids := swu, pools := p, rng_state := g1\<rparr>)))"
| "run_stage ext d MakeContacts st =
     (let hbu = py_slice_from (homes_by_uids st) (int (length (facilities_by_uids st)))
      in Some (Inr (st\<lparr>homes_by_uids := hbu,
                       popdict := make_contacts_from_microstructure_objects
                                    (contact_sampler ext (rng_state st)) (age_by_uid_dic st) hbu
                                    (syn_school_uids st) (syn_teacher_uids st)
                                    (syn_non_teaching_staff_uids st) (syn_workplace_uids st)
                                    (facilities_by_uids st) (facilities_staff_uids st)\<rparr>)))"

fun run_stages ::
  "collaborators \<Rightarrow> gen_data \<Rightarrow> stage list \<Rightarrow> gen_state \<Rightarrow> (py_error + gen_state) option" where
  "run_stages ext d [] st = Some (Inr st)"
| "run_stages ext d (s # ss) st =
     (case run_stage ext d s st of
        None \<Rightarrow> None
      | Some (Inl e) \<Rightarrow> Some (Inl e)
      | Some (Inr st') \<Rightarrow> run_stages ext d ss st')"

definition generate_stages :: "stage list" where
  "generate_stages =
     [PlaceResidents, GenerateHouseholds, AssignUids, AssignStudents, FindPotentialWorkers,
      RemoveResidents, AssignTeachers, AssignSchoolStaff, AssignFacilityStaff,
      AssignWorkplaces, MakeContacts]"

text \<open>The stages that have run when a stage is entered.\<close>

definition stages_before :: "stage \<Rightarrow> stage list" where
  "stages_before s = takeWhile (\<lambda>t. t \<noteq> s) generate_stages"

text \<open>The state of \<^verbatim>\<open>generate\<close> once \<^verbatim>\<open>popdict\<close> is bound (line 472).\<close>

definition generate_popdict :: "collaborators \<Rightarrow> gen_data \<Rightarrow> rng \<Rightarrow> (py_error + gen_state) option" where
  "generate_popdict ext d g = run_stages ext d generate_stages (initial_state g)"

subsection \<open>Names, attributes and calls\<close>

text \<open>
  A name that a function assigns anywhere in its body is local to the function, and
  reading it before it is assigned raises UnboundLocalError (a subclass of NameError).
  Every other name is looked up among the globals of the module and the builtins when it
  is read, and raises NameError if it is bound nowhere. Reading an attribute that an
  object lacks raises AttributeError, and calling a value that is not callable raises
  TypeError.

  The values of the names: an object with its attributes, a callable with the exception
  that a call of it raises (if any; what it returns is not used), the instance under
  construction, and the population dictionary.
\<close>

datatype pyval =
  PyNone | PyBool bool | PyInstance | PyFunction "py_error option"
  | PyObject "(string \<times> pyval) list" | PyPopulation "uid \<rightharpoonup> uid set person"

definition load_global :: "(string \<rightharpoonup> pyval) \<Rightarrow> string \<Rightarrow> py_error + pyval" where
  "load_global globals name = (case globals name of None \<Rightarrow> Inl NameError | Some v \<Rightarrow> Inr v)"

definition load_fast :: "(string \<rightharpoonup> pyval) \<Rightarrow> string \<Rightarrow> py_error + pyval" where
  "load_fast frame name = (case frame name of None \<Rightarrow> Inl UnboundLocalError | Some v \<Rightarrow> Inr v)"

fun getattr :: "pyval \<Rightarrow> string \<Rightarrow> py_error + pyval" where
  "getattr (PyObject attrs) name =
     (case map_of attrs name of None \<Rightarrow> Inl AttributeError | Some v \<Rightarrow> Inr v)"
| "getattr v name = Inl AttributeError"

fun call :: "pyval \<Rightarrow> py_error + pyval" where
  "call (PyFunction None) = Inr PyNone"
| "call (PyFunction (Some e)) = Inl e"
| "call v = Inl TypeError"

text \<open>
  The globals of \<^verbatim>\<open>pop.py\<close>:
  \<^verbatim>\<open>
  import sciris as sc
  import synthpops as sp
  from .config import logger as log
  from . import config as cfg
  class Pop(sc.prettyobj): ...
  \<close>
  The module binds these five names and no other.
\<close>

definition pop_module_globals :: "pyval \<Rightarrow> pyval \<Rightarrow> pyval \<Rightarrow> pyval \<Rightarrow> pyval \<Rightarrow> (string \<rightharpoonup> pyval)" where
  "pop_module_globals sc sp lg cfg Pop =
     [''sc'' \<mapsto> sc, ''sp'' \<mapsto> sp, ''log'' \<mapsto> lg, ''cfg'' \<mapsto> cfg, ''Pop'' \<mapsto> Pop]"

text \<open>A logger: \<^verbatim>\<open>log.debug(...)\<close> returns None.\<close>

definition logger :: pyval where
  "logger = PyObject [(''debug'', PyFunction None)]"

subsection \<open>The body of generate and the constructor\<close>

text \<open>
  \<^verbatim>\<open>def generate(self, verbose=False)\<close>: when the body starts, the frame binds the two
  parameters. The names that the body assigns, and that are therefore local, include
  \<^verbatim>\<open>datadir\<close> (assigned at line 414), \<^verbatim>\<open>n\<close> (assigned at line 254) and
  \<^verbatim>\<open>popdict\<close> (assigned at line 472); \<^verbatim>\<open>population\<close> is assigned nowhere in the
  body and is a global name.
\<close>

definition generate_frame :: "bool \<Rightarrow> (string \<rightharpoonup> pyval)" where
  "generate_frame verbose = [''self'' \<mapsto> PyInstance, ''verbose'' \<mapsto> PyBool verbose]"

text \<open>
  From line 134 on. The call of line 133 and the statements up to line 293 read the
  census and facility tables through \<^verbatim>\<open>spdata\<close>, \<^verbatim>\<open>spb\<close> and numpy and compute
  from them the tables of \<open>gen_data\<close>, which are taken as given; they assign neither
  \<^verbatim>\<open>n\<close> nor \<^verbatim>\<open>datadir\<close>. Among them is \<^verbatim>\<open>n = int(n)\<close> (line 254), which reads the
  local name \<^verbatim>\<open>n\<close>. Lines 294 to 472 are the stages, and the method ends with
  \<^verbatim>\<open>return population\<close> (line 492), which reads a global name; the dictionary that the
  last stage has assembled is bound to the local name \<^verbatim>\<open>popdict\<close>.
\<close>

definition generate_from_line_134 ::
  "collaborators \<Rightarrow> gen_data \<Rightarrow> (string \<rightharpoonup> pyval) \<Rightarrow> (string \<rightharpoonup> pyval) \<Rightarrow> rng
     \<Rightarrow> (py_error + pyval) option" where
  "generate_from_line_134 ext d globals frame g =
     (case load_fast frame ''n'' of
        Inl e \<Rightarrow> Some (Inl e)
      | Inr n \<Rightarrow>
          (case generate_popdict ext d g of
             None \<Rightarrow> None
           | Some (Inl e) \<Rightarrow> Some (Inl e)
           | Some (Inr st) \<Rightarrow> Some (load_global globals ''population'')))"

text \<open>
  \<^verbatim>\<open>
  log.debug('generate_microstructure_with_facilities()')
  ltcf_df = spdata.get_usa_long_term_care_facility_data(datadir, state_location, country_location, part)
  \<close>
  (lines 130 and 133). Python evaluates the function of a call before its arguments, and
  the arguments from left to right.
\<close>

definition generate ::
  "collaborators \<Rightarrow> gen_data \<Rightarrow> (string \<rightharpoonup> pyval) \<Rightarrow> bool \<Rightarrow> rng \<Rightarrow> (py_error + pyval) option" where
  "generate ext d globals verbose g =
     (case load_global globals ''log'' of
        Inl e \<Rightarrow> Some (Inl e)
      | Inr lg \<Rightarrow>
     (case getattr lg ''debug'' of
        Inl e \<Rightarrow> Some (Inl e)
      | Inr debug \<Rightarrow>
     (case call debug of
        Inl e \<Rightarrow> Some (Inl e)
      | Inr _ \<Rightarrow>
     (case load_global globals ''spdata'' of
        Inl e \<Rightarrow> Some (Inl e)
      | Inr spdata \<Rightarrow>
     (case getattr spdata ''get_usa_long_term_care_facility_data'' of
        Inl e \<Rightarrow> Some (Inl e)
      | Inr get_data \<Rightarrow>
     (case load_fast (generate_frame verbose) ''datadir'' of
        Inl e \<Rightarrow> Some (Inl e)
      | Inr datadir \<Rightarrow>
     (case load_global globals ''state_location'' of
        Inl e \<Rightarrow> Some (Inl e)
      | Inr state_location \<Rightarrow>
     (case load_global globals ''country_location'' of
        Inl e \<Rightarrow> Some (Inl e)
      | Inr country_location \<Rightarrow>
     (case load_global globals ''part'' of
        Inl e \<Rightarrow> Some (Inl e)
      | Inr part \<Rightarrow>
     (case call get_data of
        Inl e \<Rightarrow> Some (Inl e)
      | Inr ltcf_df \<Rightarrow>
          generate_from_line_134 ext d globals (generate_frame verbose) g))))))))))"

text \<open>
  \<^verbatim>\<open>
  for key, person in population.items():
      for layerkey in population[key]['contacts'].keys():
          population[key]['contacts'][layerkey] = list(population[key]['contacts'][layerkey])
  \<close>
  The order in which \<^verbatim>\<open>list\<close> enumerates a set is not specified; the list holds the
  elements of the set once each.
\<close>

definition change_types :: "(uid \<rightharpoonup> uid set person) \<Rightarrow> (uid \<rightharpoonup> uid list person)" where
  "change_types population =
     (\<lambda>key. case population key of
               None \<Rightarrow> None
             | Some p \<Rightarrow>
                 Some \<lparr>p_age = p_age p, hhid = hhid p, scid = scid p, wpid = wpid p, snfid = snfid p,
                       contacts = (\<lambda>layerkey. sorted_list_of_set (contacts p layerkey))\<rparr>)"

text \<open>
  The constructor, as far as the population is concerned:
  \<^verbatim>\<open>
  if self.rand_seed is not None:
      sp.set_seed(self.rand_seed)
  self.n = int(self.n)
  self.max_contacts = sc.mergedicts(default_max_contacts, self.max_contacts)
  population = self.generate()
  \<close>
  then the change of types and \<^verbatim>\<open>self.popdict = population\<close>. The default of
  \<^verbatim>\<open>n\<close> is None, on which \<^verbatim>\<open>int\<close> raises TypeError. A value without
  \<^verbatim>\<open>items\<close> raises AttributeError.
\<close>

record pop_object =
  self_n :: int
  self_max_contacts :: "string \<rightharpoonup> int"
  self_popdict :: "uid \<rightharpoonup> uid list person"

definition seeded :: "collaborators \<Rightarrow> int option \<Rightarrow> rng \<Rightarrow> rng" where
  "seeded ext rand_seed g = (case rand_seed of None \<Rightarrow> g | Some s \<Rightarrow> set_seed ext s)"

definition Pop_init ::
  "collaborators \<Rightarrow> gen_data \<Rightarrow> (string \<rightharpoonup> pyval) \<Rightarrow> int option \<Rightarrow> (string \<rightharpoonup> int) option
     \<Rightarrow> int option \<Rightarrow> rng \<Rightarrow> (py_error + pop_object) option" where
  "Pop_init ext d globals n max_contacts rand_seed g =
     (case n of
        None \<Rightarrow> Some (Inl TypeError)
      | Some self_n_value \<Rightarrow>
          (case generate ext d globals False (seeded ext rand_seed g) of
             None \<Rightarrow> None
           | Some (Inl e) \<Rightarrow> Some (Inl e)
           | Some (Inr (PyPopulation population)) \<Rightarrow>
               Some (Inr \<lparr>self_n = self_n_value,
                          self_max_contacts = init_max_contacts max_contacts,
                          self_popdict = change_types population\<rparr>)
           | Some (Inr _) \<Rightarrow> Some (Inl AttributeError)))"

subsection \<open>A small population\<close>

text \<open>
  Two people: uid 0, aged 60, a facility resident who is also listed as a potential
  worker, and uid 1, aged 30, a potential worker. One ratio bracket holding the ratio 3,
  staff ages 30 to 31.
\<close>

definition example_age_by_uid :: "uid \<rightharpoonup> age" where
  "example_age_by_uid = [0 \<mapsto> 60, 1 \<mapsto> 30]"

definition example_pools :: worker_pools where
  "example_pools =
     \<lparr>potential_worker_uids = [0 \<mapsto> 60, 1 \<mapsto> 30],
      potential_worker_uids_by_age = [60 \<mapsto> [0], 30 \<mapsto> [1], 31 \<mapsto> []],
      workers_by_age_to_assign_count = [60 \<mapsto> 1, 30 \<mapsto> 1, 31 \<mapsto> 0]\<rparr>"

text \<open>
  The mean of a bracket rounded once. On a bracket of one double it is that double, as
  with numpy.
\<close>

definition rounded_mean :: "rat list \<Rightarrow> pyfloat" where
  "rounded_mean xs = (if xs = [] then NaN else fl (sum_list xs / of_nat (length xs)))"

definition example_staffing :: staffing_data where
  "example_staffing =
     \<lparr>KC_ratio_distr = [(0, 1)], KC_ratio_brackets = [0 \<mapsto> [3]],
      ltcf_staff_age_min = 30, ltcf_staff_age_max = 31, np_mean = rounded_mean\<rparr>"

text \<open>
  One ratio bracket holding the ratio 13, the staff age 30, and twenty potential workers
  of that age.
\<close>

definition ratio_13_staffing :: staffing_data where
  "ratio_13_staffing =
     \<lparr>KC_ratio_distr = [(0, 1)], KC_ratio_brackets = [0 \<mapsto> [13]],
      ltcf_staff_age_min = 30, ltcf_staff_age_max = 30, np_mean = rounded_mean\<rparr>"

definition twenty_workers :: worker_pools where
  "twenty_workers =
     \<lparr>potential_worker_uids = map_of (map (\<lambda>u. (int u, 30)) [100..<120]),
      potential_worker_uids_by_age = [30 \<mapsto> map int [100..<120]],
      workers_by_age_to_assign_count = [30 \<mapsto> 20]\<rparr>"

text \<open>The same pools when no worker is left to assign at the staff ages.\<close>

definition example_pools_no_count :: worker_pools where
  "example_pools_no_count =
     example_pools\<lparr>workers_by_age_to_assign_count := [60 \<mapsto> 1, 30 \<mapsto> 0, 31 \<mapsto> 0]\<rparr>"

text \<open>A size bracket that holds the size 0, and a stream whose fourth draw is 1.\<close>

definition example_size_brackets :: "int \<rightharpoonup> int list" where
  "example_size_brackets = [0 \<mapsto> [0, 1]]"

definition example_stream :: rng where
  "example_stream = (\<lambda>i. if i = 3 then 1 else 0)"

text \<open>
  Collaborators for the small population: every household member is aged 30, uids are
  given in the order of the homes, nobody goes to school, teaches or works at a workplace,
  and no contact is dropped.
\<close>

fun number_homes :: "int \<Rightarrow> 'a list list \<Rightarrow> uid list list" where
  "number_homes k [] = []"
| "number_homes k (h # hs) =
     map (\<lambda>i. k + int i) [0..<length h] # number_homes (k + int (length h)) hs"

definition example_collaborators :: collaborators where
  "example_collaborators =
     \<lparr>set_seed = (\<lambda>s i. 0),
      custom_generate_all_households = (\<lambda>n sizes g. Inr (map (\<lambda>s. replicate (nat s) 30) sizes, g)),
      assign_uids_by_homes =
        (\<lambda>homes g. Inr (number_homes 0 homes,
                        map_of (zip (concat (number_homes 0 homes)) (concat homes)), g)),
      get_uids_in_school = (\<lambda>n abu hbu g. Inr (Map.empty, g)),
      send_students_to_school_with_school_types = (\<lambda>u g. Inr ([], g)),
      send_students_to_school = (\<lambda>u g. Inr ([], g)),
      get_uids_potential_workers = (\<lambda>ssu abu. Inr example_pools),
      assign_teachers_to_schools = (\<lambda>ssu p g. Inr ([], p, g)),
      assign_additional_staff_to_schools = (\<lambda>ssu stu p g. Inr ([], p, g)),
      assign_rest_of_workers = (\<lambda>p g. Inr ([], p, g)),
      contact_sampler = (\<lambda>g l a b. True)\<rparr>"

definition example_data :: gen_data where
  "example_data =
     \<lparr>pop_n = 2, expected_users_by_age = [(60, 1)], KC_resident_size_distr = [(0, 1)],
      KC_residents_size_brackets = [0 \<mapsto> [1]], household_size_distr = [(1, 1)],
      with_school_types = False, staffing = example_staffing\<rparr>"

section \<open>Properties\<close>

subsection \<open>Evaluation on a constant stream\<close>

lemma rng_draw_const [simp]: "rng_draw (\<lambda>_. c) = (c, \<lambda>_. c)"
  by (simp add: rng_draw_def)

subsection \<open>Facilities partition the residents\<close>

lemma py_slice_append: "py_slice_to xs i @ py_slice_from xs i = xs"
  by (simp add: py_slice_to_def py_slice_from_def)

lemma place_residents_concat_aux:
  assumes "place_residents d b rs fs g = Some y"
  shows "case y of Inl e \<Rightarrow> True | Inr (fs', g') \<Rightarrow> concat fs' = concat fs @ rs"
proof (rule place_residents.raw_induct
    [where P = "\<lambda>d b rs fs g y. case y of Inl e \<Rightarrow> True | Inr (fs', g') \<Rightarrow> concat fs' = concat fs @ rs",
     OF _ assms], goal_cases)
  case (1 rec d b rs fs g y)
  show ?case
  proof (cases "0 < length rs")
    case False
    with 1(2) show ?thesis by auto
  next
    case True
    show ?thesis
    proof (cases y)
      case (Inl e)
      then show ?thesis by simp
    next
      case (Inr r)
      with True 1(2) obtain size0 g2 where
        rec: "rec d b (py_slice_from rs (if int (length rs) < size0 then int (length rs) else size0))
                (fs @ [py_slice_to rs (if int (length rs) < size0 then int (length rs) else size0)]) g2
              = Some y"
        by (auto simp: Let_def split: sum.splits option.splits prod.splits)
      from 1(1)[OF rec] Inr show ?thesis
        by (auto simp: py_slice_append split: prod.splits)
    qed
  qed
qed

lemma place_residents_concat:
  "place_residents d b rs fs g = Some (Inr (fs', g')) \<Longrightarrow> concat fs' = concat fs @ rs"
  using place_residents_concat_aux[of d b rs fs g "Inr (fs', g')"] by simp

lemma household_sizes_sum:
  "generate_household_sizes_from_fixed_pop_size N d g = Inr (sizes, g') \<Longrightarrow> sum_list sizes = N"
proof (induction N d g arbitrary: sizes g' rule: generate_household_sizes_from_fixed_pop_size.induct)
  case (1 N d g)
  note eq = 1(2)[unfolded generate_household_sizes_from_fixed_pop_size.simps[of N d g]]
  show ?case
  proof (cases "N \<le> 0")
    case True
    with eq show ?thesis by (auto split: if_splits)
  next
    case False
    with eq obtain s g1 sizes' where
      c: "random_choice_p (map fst d) (map snd d) g = Inr (s, g1)" "\<not> s < 1"
      and r: "generate_household_sizes_from_fixed_pop_size (N - min s N) d g1 = Inr (sizes', g')"
      and e: "sizes = min s N # sizes'"
      by (auto split: sum.splits prod.splits if_splits)
    from False have n: "\<not> N < 0" "N \<noteq> 0" by auto
    from 1(1)[OF n c(1) refl c(2) r] have "sum_list sizes' = N - min s N" .
    with e show ?thesis by simp
  qed
qed

text \<open>
  When the facility loop and the household-size stage both succeed, the household sizes
  and the facility resident counts add up to \<open>n\<close>.
\<close>

lemma partition_and_household_sizes:
  assumes "place_residents d b residents [] g = Some (Inr (facs, g1))"
    and "generate_household_sizes_from_fixed_pop_size (n_nonltcf n facs) hh_distr g1
           = Inr (sizes, g2)"
  shows "sum_list sizes + int (sum_list (map length facs)) = n
         \<and> sum_list sizes = n - int (length residents)"
proof -
  from place_residents_concat[OF assms(1)] have "concat facs = residents" by simp
  then have "sum_list (map length facs) = length residents"
    by (metis length_concat)
  moreover from household_sizes_sum[OF assms(2)] have "sum_list sizes = n_nonltcf n facs" .
  ultimately show ?thesis by (simp add: n_nonltcf_def)
qed

subsection \<open>The contact caps\<close>

lemma init_max_contacts_None: "init_max_contacts None = default_max_contacts"
  by (simp add: init_max_contacts_def)

lemma init_max_contacts_Some:
  "init_max_contacts (Some d) k = (case d k of Some v \<Rightarrow> Some v | None \<Rightarrow> default_max_contacts k)"
  by (simp add: init_max_contacts_def)

text \<open>
  C10. The constructor merges the user-supplied dictionary over the default
  \<^verbatim>\<open>{'W': 20}\<close>: when \<^verbatim>\<open>max_contacts\<close> is \<^verbatim>\<open>None\<close> or has no key
  \<^verbatim>\<open>'W'\<close> the cap of the workplace layer is 20, every user-supplied entry overrides
  the default, and the merged dictionary always has the key \<^verbatim>\<open>'W'\<close>.
\<close>

theorem max_contacts_default_W:
  "init_max_contacts None ''W'' = Some 20
   \<and> (\<forall>d. d ''W'' = None \<longrightarrow> init_max_contacts (Some d) ''W'' = Some 20)
   \<and> (\<forall>d k v. d k = Some v \<longrightarrow> init_max_contacts (Some d) k = Some v)
   \<and> (\<forall>mc. ''W'' \<in> dom (init_max_contacts mc))"
proof (intro conjI allI impI)
  show "init_max_contacts None ''W'' = Some 20"
    by (simp add: init_max_contacts_None default_max_contacts_def)
next
  fix d :: "string \<rightharpoonup> int"
  assume "d ''W'' = None"
  then show "init_max_contacts (Some d) ''W'' = Some 20"
    by (simp add: init_max_contacts_Some default_max_contacts_def)
next
  fix d :: "string \<rightharpoonup> int" and k v
  assume "d k = Some v"
  then show "init_max_contacts (Some d) k = Some v"
    by (simp add: init_max_contacts_Some)
next
  fix mc :: "(string \<rightharpoonup> int) option"
  show "''W'' \<in> dom (init_max_contacts mc)"
  proof (cases mc)
    case None
    then show ?thesis
      by (simp add: init_max_contacts_None default_max_contacts_def)
  next
    case (Some d)
    then show ?thesis
      by (cases "d ''W''") (simp_all add: init_max_contacts_Some default_max_contacts_def dom_def)
  qed
qed

theorem max_contacts_default_W_witness:
  "[''H'' \<mapsto> (4::int)] ''W'' = None
   \<and> init_max_contacts (Some [''H'' \<mapsto> 4]) ''W'' = Some 20
   \<and> [''W'' \<mapsto> (5::int)] ''W'' = Some 5
   \<and> init_max_contacts (Some [''W'' \<mapsto> 5]) ''W'' = Some 5"
  using max_contacts_default_W by simp

subsection \<open>Sampling\<close>

lemma random_choice_p_pos:
  assumes "random_choice_p a p g = Inr (x, g')"
  shows "\<exists>i<length a. i < length p \<and> a ! i = x \<and> 0 < p ! i"
proof -
  let ?cands = "map fst (filter (\<lambda>(x, q). 0 < q) (zip a p))"
  from assms have ne: "?cands \<noteq> []" and x: "x = ?cands ! (fst (rng_draw g) mod length ?cands)"
    by (auto simp: random_choice_p_def Let_def split: if_splits prod.splits)
  from ne have "fst (rng_draw g) mod length ?cands < length ?cands" by simp
  with x have "x \<in> set ?cands" by (metis nth_mem)
  then obtain q where "(x, q) \<in> set (zip a p)" "0 < q" by auto
  then show ?thesis by (auto simp: in_set_zip)
qed

lemma lookup_all_nth:
  "lookup_all d ks = Inr vs \<Longrightarrow> length vs = length ks \<and> (\<forall>i<length ks. d (ks ! i) = Some (vs ! i))"
proof (induction ks arbitrary: vs)
  case Nil
  then show ?case by simp
next
  case (Cons k ks)
  then show ?case
    by (auto split: option.splits sum.splits simp: nth_Cons split: nat.splits)
qed

lemma for_each_invariant:
  assumes "\<And>s x s'. I s \<Longrightarrow> x \<in> set xs \<Longrightarrow> f s x = Inr s' \<Longrightarrow> I s'"
    and "I s" and "for_each f xs s = Inr s'"
  shows "I s'"
  using assms
proof (induction xs arbitrary: s)
  case Nil
  then show ?case by simp
next
  case (Cons x xs)
  from Cons.prems(3) obtain s1 where s1: "f s x = Inr s1" and r: "for_each f xs s1 = Inr s'"
    by (auto split: sum.splits)
  have "I s1" using Cons.prems(1)[OF Cons.prems(2) _ s1] by simp
  show ?case
    by (rule Cons.IH[OF _ \<open>I s1\<close> r]) (auto intro: Cons.prems(1))
qed

subsection \<open>The remaining counts stay non-negative\<close>

lemma remove_resident_nonneg:
  "counts_nonneg st \<Longrightarrow> remove_resident abu st uid = Inr st' \<Longrightarrow> counts_nonneg st'"
  by (auto simp: remove_resident_def counts_nonneg_def split: option.splits if_splits)

lemma remove_residents_nonneg:
  assumes "counts_nonneg st" "remove_residents_from_workers abu fbu st = Inr st'"
  shows "counts_nonneg st'"
proof -
  have inner: "\<And>s fc s'. counts_nonneg s \<Longrightarrow> for_each (remove_resident abu) fc s = Inr s' \<Longrightarrow> counts_nonneg s'"
    by (rule for_each_invariant[where I = counts_nonneg]) (auto intro: remove_resident_nonneg)
  show ?thesis
    using assms(2) unfolding remove_residents_from_workers_def
    by (rule for_each_invariant[where I = counts_nonneg, rotated 2]) (auto intro: inner assms(1))
qed

lemma choose_staff_age_in_range:
  assumes "choose_staff_age r counts g = Inr (a, g')"
  shows "a \<in> set r"
proof -
  from assms obtain cs where "random_choice_p r (map (\<lambda>c. rat_of_int c / rat_of_int (sum_list cs)) cs) g = Inr (a, g')"
    by (auto simp: choose_staff_age_def split: sum.splits if_splits)
  from random_choice_p_pos[OF this] show ?thesis by auto
qed

lemma choose_staff_age_pos:
  assumes nn: "\<forall>a c. counts a = Some c \<longrightarrow> 0 \<le> c"
    and ch: "choose_staff_age r counts g = Inr (a, g')"
  shows "\<exists>c. counts a = Some c \<and> 0 < c"
proof -
  from ch obtain cs where cs: "lookup_all counts r = Inr cs" and S: "sum_list cs \<noteq> 0"
    and rc: "random_choice_p r (map (\<lambda>c. rat_of_int c / rat_of_int (sum_list cs)) cs) g = Inr (a, g')"
    by (auto simp: choose_staff_age_def split: sum.splits if_splits)
  from lookup_all_nth[OF cs] have len: "length cs = length r"
    and nth: "\<And>i. i < length r \<Longrightarrow> counts (r ! i) = Some (cs ! i)" by auto
  have all: "\<forall>c\<in>set cs. 0 \<le> c"
  proof
    fix c assume "c \<in> set cs"
    then obtain i where "i < length cs" "cs ! i = c" by (auto simp: in_set_conv_nth)
    with nth[of i] len nn show "0 \<le> c" by auto
  qed
  then have "0 \<le> sum_list cs" by (simp add: sum_list_nonneg)
  with S have Spos: "0 < sum_list cs" by simp
  from random_choice_p_pos[OF rc] obtain i where i: "i < length r" "r ! i = a"
    and p: "0 < rat_of_int (cs ! i) / rat_of_int (sum_list cs)"
    using len by auto
  from p Spos have "0 < cs ! i" by (simp add: zero_less_divide_iff)
  with nth[OF i(1)] i(2) show ?thesis by auto
qed

lemma draw_staff_member_nonneg:
  assumes "counts_nonneg st" "draw_staff_member r st g = Inr (a, u, st', g')"
  shows "counts_nonneg st'"
proof -
  from assms(2) obtain g1 rest c where ch: "choose_staff_age r (workers_by_age_to_assign_count st) g = Inr (a, g1)"
    and c: "workers_by_age_to_assign_count st a = Some c"
    and st': "workers_by_age_to_assign_count st' = (workers_by_age_to_assign_count st)(a \<mapsto> c - 1)"
    by (auto simp: draw_staff_member_def split: sum.splits option.splits list.splits)
  from assms(1) have "\<forall>a c. workers_by_age_to_assign_count st a = Some c \<longrightarrow> 0 \<le> c"
    by (simp add: counts_nonneg_def)
  from choose_staff_age_pos[OF this ch] c have "0 < c" by auto
  with assms(1) st' show ?thesis by (auto simp: counts_nonneg_def)
qed

lemma draw_staff_nonneg:
  "counts_nonneg st \<Longrightarrow> draw_staff r k ns nu st g = Inr (ns', nu', st', g') \<Longrightarrow> counts_nonneg st'"
proof (induction k arbitrary: ns nu st g)
  case 0
  then show ?case by simp
next
  case (Suc k)
  from Suc.prems(2) obtain a u st1 g1 where d: "draw_staff_member r st g = Inr (a, u, st1, g1)"
    and r: "draw_staff r k (ns @ [a]) (nu @ [u]) st1 g1 = Inr (ns', nu', st', g')"
    by (auto split: sum.splits)
  from Suc.IH[OF draw_staff_member_nonneg[OF Suc.prems(1) d] r] show ?case .
qed

lemma staff_facility_nonneg:
  "counts_nonneg st \<Longrightarrow> staff_facility sd fc st g = Inr (ns', nu', st', g') \<Longrightarrow> counts_nonneg st'"
  by (auto simp: staff_facility_def split: sum.splits option.splits dest: draw_staff_nonneg)

lemma assign_facility_staff_nonneg:
  "counts_nonneg st \<Longrightarrow> assign_facility_staff sd fcs fs fu st g = Inr (fs', fu', st', g')
     \<Longrightarrow> counts_nonneg st'"
proof (induction fcs arbitrary: fs fu st g)
  case Nil
  then show ?case by simp
next
  case (Cons fc fcs)
  from Cons.prems(2) obtain ns nu st1 g1 where d: "staff_facility sd fc st g = Inr (ns, nu, st1, g1)"
    and r: "assign_facility_staff sd fcs (fs @ [ns]) (fu @ [nu]) st1 g1 = Inr (fs', fu', st', g')"
    by (auto split: sum.splits)
  from Cons.IH[OF staff_facility_nonneg[OF Cons.prems(1) d] r] show ?case .
qed

subsection \<open>Each draw takes one uid of the staff age range\<close>

lemma sum_list_map_upd:
  "distinct xs \<Longrightarrow> a \<in> set xs \<Longrightarrow>
     sum_list (map (f(a := v)) xs) + f a = sum_list (map f xs) + (v::nat)"
  by (induction xs) auto

lemma draw_staff_member_supply:
  assumes "distinct r" and "draw_staff_member r st g = Inr (a, u, st', g')"
  shows "staff_supply r st' + 1 = staff_supply r st"
proof -
  from assms(2) obtain g1 rest where ch: "choose_staff_age r (workers_by_age_to_assign_count st) g = Inr (a, g1)"
    and l: "potential_worker_uids_by_age st a = Some (u # rest)"
    and st': "potential_worker_uids_by_age st' = (potential_worker_uids_by_age st)(a \<mapsto> rest)"
    by (auto simp: draw_staff_member_def split: sum.splits option.splits list.splits)
  let ?f = "\<lambda>a. case potential_worker_uids_by_age st a of None \<Rightarrow> 0 | Some l \<Rightarrow> length l"
  have eq: "(\<lambda>b. case potential_worker_uids_by_age st' b of None \<Rightarrow> 0 | Some l \<Rightarrow> length l)
            = ?f(a := length rest)"
    by (auto simp: st')
  from choose_staff_age_in_range[OF ch] have "a \<in> set r" .
  from sum_list_map_upd[OF assms(1) this, of ?f "length rest"] l
  show ?thesis by (simp add: staff_supply_def eq)
qed

lemma draw_staff_insufficient:
  "distinct r \<Longrightarrow> staff_supply r st < k \<Longrightarrow> \<exists>e. draw_staff r k ns nu st g = Inl e"
proof (induction k arbitrary: ns nu st g)
  case 0
  then show ?case by simp
next
  case (Suc k)
  show ?case
  proof (cases "draw_staff_member r st g")
    case (Inl e)
    then show ?thesis by simp
  next
    case (Inr res)
    then obtain a u st1 g1 where d: "draw_staff_member r st g = Inr (a, u, st1, g1)"
      by (cases res) auto
    from draw_staff_member_supply[OF Suc.prems(1) d] Suc.prems(2)
    have "staff_supply r st1 < k" by simp
    from Suc.IH[OF Suc.prems(1) this] d show ?thesis by simp
  qed
qed

lemma draw_staff_length:
  "draw_staff r k ns nu st g = Inr (ns', nu', st', g')
     \<Longrightarrow> length ns' = length ns + k \<and> length nu' = length nu + k"
proof (induction k arbitrary: ns nu st g)
  case 0
  then show ?case by simp
next
  case (Suc k)
  from Suc.prems obtain a u st1 g1 where
    r: "draw_staff r k (ns @ [a]) (nu @ [u]) st1 g1 = Inr (ns', nu', st', g')"
    by (auto split: sum.splits)
  from Suc.IH[OF r] show ?case by simp
qed

subsection \<open>Drawn and removed uids leave the potential-worker dictionary\<close>

lemma remove_resident_removed:
  assumes "remove_resident abu st uid = Inr st'"
  shows "potential_worker_uids st' uid = None
         \<and> (\<forall>u. potential_worker_uids st u = None \<longrightarrow> potential_worker_uids st' u = None)"
  using assms
  by (auto simp: remove_resident_def split: option.splits if_splits)

lemma remove_residents_fc_removed:
  "for_each (remove_resident abu) fc st = Inr st'
   \<Longrightarrow> (\<forall>u\<in>set fc. potential_worker_uids st' u = None)
       \<and> (\<forall>u. potential_worker_uids st u = None \<longrightarrow> potential_worker_uids st' u = None)"
proof (induction fc arbitrary: st)
  case Nil
  then show ?case by simp
next
  case (Cons uid fc)
  from Cons.prems obtain st1 where s: "remove_resident abu st uid = Inr st1"
    and r: "for_each (remove_resident abu) fc st1 = Inr st'"
    by (auto split: sum.splits)
  from remove_resident_removed[OF s] Cons.IH[OF r] show ?case by auto
qed

lemma remove_residents_removed:
  "remove_residents_from_workers abu fbu st = Inr st'
   \<Longrightarrow> (\<forall>u\<in>set (concat fbu). potential_worker_uids st' u = None)
       \<and> (\<forall>u. potential_worker_uids st u = None \<longrightarrow> potential_worker_uids st' u = None)"
  unfolding remove_residents_from_workers_def
proof (induction fbu arbitrary: st)
  case Nil
  then show ?case by simp
next
  case (Cons fc fbu)
  from Cons.prems obtain st1 where s: "for_each (remove_resident abu) fc st = Inr st1"
    and r: "for_each (\<lambda>st fc. for_each (remove_resident abu) fc st) fbu st1 = Inr st'"
    by (auto split: sum.splits)
  from remove_residents_fc_removed[OF s] Cons.IH[OF r] show ?case by auto
qed

lemma draw_staff_member_removed:
  assumes "draw_staff_member r st g = Inr (a, u, st', g')"
  shows "potential_worker_uids st' u = None
         \<and> (\<forall>v. potential_worker_uids st v = None \<longrightarrow> potential_worker_uids st' v = None)
         \<and> (\<exists>l. potential_worker_uids_by_age st a = Some l \<and> u \<in> set l) \<and> a \<in> set r"
proof -
  from assms obtain g1 where "choose_staff_age r (workers_by_age_to_assign_count st) g = Inr (a, g1)"
    by (auto simp: draw_staff_member_def split: sum.splits option.splits list.splits)
  from choose_staff_age_in_range[OF this] have "a \<in> set r" .
  with assms show ?thesis
    by (auto simp: draw_staff_member_def split: sum.splits option.splits list.splits)
qed

lemma draw_staff_removed:
  "draw_staff r k ns nu st g = Inr (ns', nu', st', g')
   \<Longrightarrow> \<forall>u\<in>set nu. potential_worker_uids st u = None
   \<Longrightarrow> (\<forall>u\<in>set nu'. potential_worker_uids st' u = None)
       \<and> (\<forall>v. potential_worker_uids st v = None \<longrightarrow> potential_worker_uids st' v = None)"
proof (induction k arbitrary: ns nu st g)
  case 0
  then show ?case by simp
next
  case (Suc k)
  from Suc.prems(1) obtain a u st1 g1 where d: "draw_staff_member r st g = Inr (a, u, st1, g1)"
    and r: "draw_staff r k (ns @ [a]) (nu @ [u]) st1 g1 = Inr (ns', nu', st', g')"
    by (auto split: sum.splits)
  note m = draw_staff_member_removed[OF d]
  from m Suc.prems(2) have "\<forall>u\<in>set (nu @ [u]). potential_worker_uids st1 u = None" by auto
  from Suc.IH[OF r this] m show ?case by auto
qed

lemma staff_facility_removed:
  assumes "staff_facility sd fc st g = Inr (ns', nu', st', g')"
  shows "(\<forall>u\<in>set nu'. potential_worker_uids st' u = None)
         \<and> (\<forall>v. potential_worker_uids st v = None \<longrightarrow> potential_worker_uids st' v = None)"
proof -
  from assms obtain k g1 where "draw_staff (staff_age_range sd) k [] [] st g1 = Inr (ns', nu', st', g')"
    by (auto simp: staff_facility_def split: sum.splits option.splits)
  from draw_staff_removed[OF this] show ?thesis by simp
qed

lemma assign_facility_staff_removed:
  "assign_facility_staff sd fcs fs fu st g = Inr (fs', fu', st', g')
   \<Longrightarrow> \<forall>u\<in>set (concat fu). potential_worker_uids st u = None
   \<Longrightarrow> (\<forall>u\<in>set (concat fu'). potential_worker_uids st' u = None)
       \<and> (\<forall>v. potential_worker_uids st v = None \<longrightarrow> potential_worker_uids st' v = None)"
proof (induction fcs arbitrary: fs fu st g)
  case Nil
  then show ?case by simp
next
  case (Cons fc fcs)
  from Cons.prems(1) obtain ns nu st1 g1 where d: "staff_facility sd fc st g = Inr (ns, nu, st1, g1)"
    and r: "assign_facility_staff sd fcs (fs @ [ns]) (fu @ [nu]) st1 g1 = Inr (fs', fu', st', g')"
    by (auto split: sum.splits)
  note m = staff_facility_removed[OF d]
  from m Cons.prems(2) have "\<forall>u\<in>set (concat (fu @ [nu])). potential_worker_uids st1 u = None" by auto
  from Cons.IH[OF r this] m show ?case by auto
qed

subsection \<open>Rounding to a double\<close>

text \<open>Floors and ceilings of quotients of numerals, for the evaluation of \<open>fl\<close>.\<close>

lemma floor_rat_divide_numeral [simp]:
  "\<lfloor>numeral a / numeral b :: rat\<rfloor> = numeral a div numeral b"
  by (metis floor_divide_of_int_eq of_int_numeral)

lemma ceiling_rat_divide_numeral [simp]:
  "\<lceil>numeral a / numeral b :: rat\<rceil> = - (- numeral a div numeral b)"
  unfolding ceiling_def
  by (metis divide_minus_left floor_divide_of_int_eq of_int_neg_numeral of_int_numeral)

lemma floor_rat_one_divide_numeral [simp]: "\<lfloor>1 / numeral b :: rat\<rfloor> = 1 div numeral b"
  by (metis floor_divide_of_int_eq of_int_1 of_int_numeral)

lemma ceiling_rat_one_divide_numeral [simp]: "\<lceil>1 / numeral b :: rat\<rceil> = - (- 1 div numeral b)"
  unfolding ceiling_def
  by (metis divide_minus_left floor_divide_of_int_eq of_int_minus of_int_1 of_int_numeral)

lemmas fl_eval = fl_def round_to_ulp_def ulp_exponent_def floor_log2_def round_half_even_def bitlen.simps

lemma bitlen_lower: "0 < n \<Longrightarrow> 2 ^ (bitlen n - 1) \<le> n"
proof (induction n rule: bitlen.induct)
  case (1 n)
  show ?case
  proof (cases "n div 2 = 0")
    case True
    with 1(2) have "n = 1" by (simp add: div_eq_0_iff) 
    then show ?thesis by (simp add: bitlen.simps)
  next
    case False
    with 1 have ih: "2 ^ (bitlen (n div 2) - 1) \<le> n div 2" by simp
    from False have "0 < bitlen (n div 2)" by (simp add: bitlen.simps[of "n div 2"])
    then have "bitlen n - 1 = Suc (bitlen (n div 2) - 1)"
      using 1(2) by (simp add: bitlen.simps[of n])
    with ih show ?thesis by simp
  qed
qed

lemma bitlen_upper: "n < 2 ^ bitlen n"
proof (induction n rule: bitlen.induct)
  case (1 n)
  show ?case
  proof (cases "n = 0")
    case True
    then show ?thesis by (simp add: bitlen.simps)
  next
    case False
    with 1 have "n div 2 < 2 ^ bitlen (n div 2)" by simp
    then have "n < 2 * 2 ^ bitlen (n div 2)" by linarith
    with False show ?thesis by (simp add: bitlen.simps[of n])
  qed
qed

lemma floor_log2_le:
  assumes "0 < a"
  shows "2 powi floor_log2 a \<le> a"
proof (cases "1 \<le> a")
  case True
  then have pos: "0 < nat \<lfloor>a\<rfloor>" by simp
  have "bitlen (nat \<lfloor>a\<rfloor>) \<noteq> 0" using pos by (simp add: bitlen.simps[of "nat \<lfloor>a\<rfloor>"])
  then have e: "floor_log2 a = int (bitlen (nat \<lfloor>a\<rfloor>) - 1)"
    using True by (simp add: floor_log2_def)
  from bitlen_lower[OF pos] have "(2::rat) ^ (bitlen (nat \<lfloor>a\<rfloor>) - 1) \<le> of_nat (nat \<lfloor>a\<rfloor>)"
    by (metis of_nat_le_iff of_nat_numeral of_nat_power)
  also have "\<dots> = of_int \<lfloor>a\<rfloor>" using True by simp
  also have "\<dots> \<le> a" by simp
  finally show ?thesis by (simp add: e)
next
  case False
  define N where "N = nat \<lceil>1 / a\<rceil>"
  from False assms have "1 < 1 / a" by simp
  then have "1 < \<lceil>1 / a\<rceil>" by (simp add: less_ceiling_iff)
  then have N: "1 < N" by (simp add: N_def)
  have "N - 1 < 2 ^ bitlen (N - 1)" by (rule bitlen_upper)
  with N have le: "N \<le> 2 ^ bitlen (N - 1)" by linarith
  have "1 / a \<le> of_int \<lceil>1 / a\<rceil>" by (rule le_of_int_ceiling)
  also have "of_int \<lceil>1 / a\<rceil> = (of_nat N :: rat)"
    using \<open>1 < \<lceil>1 / a\<rceil>\<close> by (simp add: N_def)
  also have "(of_nat N :: rat) \<le> of_nat (2 ^ bitlen (N - 1))"
    using le by (simp only: of_nat_le_iff)
  also have "(of_nat (2 ^ bitlen (N - 1)) :: rat) = 2 ^ bitlen (N - 1)" by simp
  finally have "1 / a \<le> 2 ^ bitlen (N - 1)" .
  with assms have "1 / 2 ^ bitlen (N - 1) \<le> a"
    by (simp add: field_simps)
  moreover have "floor_log2 a = - int (bitlen (N - 1))"
    using False by (simp add: floor_log2_def N_def)
  ultimately show ?thesis by (simp add: power_int_minus_divide)
qed

lemma ulp_le:
  assumes "0 < a"
  shows "2 powi ulp_exponent a \<le> max (a / 2 ^ 52) (2 powi (- 1074))"
proof (cases "floor_log2 a - 52 \<le> - 1074")
  case True
  then show ?thesis by (simp add: ulp_exponent_def max_def)
next
  case False
  then have "ulp_exponent a = floor_log2 a - 52" by (simp add: ulp_exponent_def)
  moreover have "(2::rat) powi (floor_log2 a - 52) = 2 powi floor_log2 a / 2 ^ 52"
    by (simp add: power_int_diff)
  moreover note floor_log2_le[OF assms]
  ultimately have "2 powi ulp_exponent a \<le> a / 2 ^ 52"
    by (simp add: divide_right_mono)
  then show ?thesis by simp
qed

lemma ulp_le_self:
  assumes "2 powi (- 1074) \<le> a"
  shows "2 powi ulp_exponent a \<le> a"
proof -
  have "(0::rat) < 2 powi (- 1074)" by simp
  with assms have pos: "0 < a" by linarith
  then have "a / 2 ^ 52 \<le> a" by (simp add: field_simps)
  with ulp_le[OF pos] assms show ?thesis by (simp add: max_def split: if_splits)
qed

lemma round_half_even_bounds:
  "\<lfloor>y\<rfloor> \<le> round_half_even y \<and> of_int (round_half_even y) \<le> y + 1 / 2"
  unfolding round_half_even_def
  by (auto simp: field_simps) linarith+

lemma round_to_ulp_nonneg:
  assumes "0 \<le> a"
  shows "0 \<le> round_to_ulp a"
proof -
  have u: "(0::rat) < 2 powi ulp_exponent a" by simp
  with assms have "0 \<le> a / 2 powi ulp_exponent a" by simp
  then have "0 \<le> \<lfloor>a / 2 powi ulp_exponent a\<rfloor>" by simp
  with round_half_even_bounds[of "a / 2 powi ulp_exponent a"]
  have "0 \<le> round_half_even (a / 2 powi ulp_exponent a)" by linarith
  with u show ?thesis by (simp add: round_to_ulp_def)
qed

lemma round_to_ulp_lower:
  assumes "2 powi (- 1074) \<le> a"
  shows "a / 2 \<le> round_to_ulp a"
proof -
  define u :: rat where "u = 2 powi ulp_exponent a"
  define y where "y = a / u"
  have u: "0 < u" by (simp add: u_def)
  from ulp_le_self[OF assms] have "u \<le> a" by (simp add: u_def)
  with u have y1: "1 \<le> y" by (simp add: y_def)
  then have "1 \<le> \<lfloor>y\<rfloor>" by simp
  moreover have "y < of_int \<lfloor>y\<rfloor> + 1" by linarith
  ultimately have "y / 2 \<le> of_int \<lfloor>y\<rfloor>" by linarith
  also have "(of_int \<lfloor>y\<rfloor> :: rat) \<le> of_int (round_half_even y)"
    using round_half_even_bounds[of y] by simp
  finally have "y / 2 * u \<le> of_int (round_half_even y) * u"
    using u by (simp add: mult_right_mono)
  moreover have "y / 2 * u = a / 2" using u by (simp add: y_def)
  ultimately show ?thesis by (simp add: round_to_ulp_def u_def y_def)
qed

lemma round_to_ulp_upper:
  assumes "0 < a"
  shows "round_to_ulp a \<le> a + (a / 2 ^ 52 + 2 powi (- 1074)) / 2"
proof -
  define u :: rat where "u = 2 powi ulp_exponent a"
  define y where "y = a / u"
  have u: "0 < u" by (simp add: u_def)
  have "of_int (round_half_even y) * u \<le> (y + 1 / 2) * u"
    using round_half_even_bounds[of y] u by (simp add: mult_right_mono)
  also have "(y + 1 / 2) * u = a + u / 2" using u by (simp add: y_def field_simps)
  finally have "round_to_ulp a \<le> a + u / 2" by (simp add: round_to_ulp_def u_def y_def)
  moreover have "u \<le> a / 2 ^ 52 + 2 powi (- 1074)"
  proof -
    have "(0::rat) < 2 powi (- 1074)" by simp
    moreover from assms have "0 < a / 2 ^ 52" by simp
    ultimately have "max (a / 2 ^ 52) (2 powi (- 1074)) \<le> a / 2 ^ 52 + 2 powi (- 1074)"
      by (simp add: max_def)
    with ulp_le[OF assms] show ?thesis unfolding u_def by (rule order_trans)
  qed
  ultimately have "a + u / 2 \<le> a + (a / 2 ^ 52 + 2 powi (- 1074)) / 2"
    by (simp only: add_left_mono divide_right_mono zero_le_numeral)
  with \<open>round_to_ulp a \<le> a + u / 2\<close> show ?thesis by (rule order_trans)
qed

lemma fl_pos_cases:
  assumes "0 < q"
  shows "fl q = PInf \<and> 2 ^ 1024 \<le> round_to_ulp q
         \<or> fl q = Finite (round_to_ulp q) \<and> 0 \<le> round_to_ulp q \<and> round_to_ulp q < 2 ^ 1024"
  using assms round_to_ulp_nonneg[of q] by (simp add: fl_def)

lemma fl_small_finite:
  assumes "0 < q" and "q \<le> 2 ^ 1023"
  shows "fl q = Finite (round_to_ulp q) \<and> 0 \<le> round_to_ulp q \<and> round_to_ulp q < 2 ^ 1024"
proof -
  have p: "(2::rat) powi (- 1074) \<le> 1" by (simp add: power_int_minus_divide)
  have "q / 2 ^ 52 \<le> q" using assms(1) by (simp add: field_simps)
  from this p have "q / 2 ^ 52 + 2 powi (- 1074) \<le> q + 1" by (rule add_mono)
  then have "q + (q / 2 ^ 52 + 2 powi (- 1074)) / 2 \<le> q + (q + 1) / 2"
    by (simp only: add_left_mono divide_right_mono zero_le_numeral)
  with round_to_ulp_upper[OF assms(1)] have "round_to_ulp q \<le> q + (q + 1) / 2"
    by (rule order_trans)
  also have "\<dots> < 2 * 2 ^ 1023"
  proof -
    have "q \<le> M \<Longrightarrow> 1 < M \<Longrightarrow> q + (q + 1) / 2 < 2 * M" for M :: rat
      by (simp add: field_simps)
    from this[OF assms(2)] show ?thesis by simp
  qed
  also have "(2::rat) * 2 ^ 1023 = 2 ^ 1024" by simp
  finally show ?thesis using fl_pos_cases[OF assms(1)] by auto
qed

lemma staff_count_pos:
  assumes n: "1 \<le> n" and m: "mean sb_range = Finite v" and v: "0 < v" "v < 2 ^ 1024"
    and s: "staff_count mean n sb_range = Inr k"
  shows "1 \<le> k"
proof -
  have small: "(2::rat) powi (- 1074) \<le> 1 / 2 ^ 1025" by (simp add: power_int_minus_divide)
  from v have "0 < v / 3" "v / 3 \<le> 2 ^ 1023" by simp_all
  from fl_small_finite[OF this] obtain r where
    r: "fl (v / 3) = Finite r" "0 \<le> r" "r < 2 ^ 1024" by blast
  from n have npos: "(0::rat) < of_nat n" by simp
  from s obtain x where x: "fl (of_nat n) = Finite x"
    by (auto simp: staff_count_def split: pyfloat.splits)
  with fl_pos_cases[OF npos] have xr: "x = round_to_ulp (of_nat n)" by auto
  have "(2::rat) powi (- 1074) \<le> 1" by (simp add: power_int_minus_divide)
  also have "(1::rat) \<le> of_nat n" using n by simp
  finally have "of_nat n / 2 \<le> x" unfolding xr by (rule round_to_ulp_lower)
  with n have xh: "1 / 2 \<le> x" by (simp add: field_simps)
  from s r x m have c: "py_ceil (fdiv (Finite x) (Finite r)) = Inr k"
    by (simp add: staff_count_def)
  have "r \<noteq> 0" using c xh by (auto split: if_splits)
  with r have rpos: "0 < r" by simp
  from c \<open>r \<noteq> 0\<close> have c': "py_ceil (fl (x / r)) = Inr k" by simp
  have q: "0 < x / r" using xh rpos by simp
  have "1 / 2 ^ 1025 \<le> x / r"
  proof -
    have "1 / 2 ^ 1025 = (1 / 2) / (2 ^ 1024 :: rat)" by simp
    also have "\<dots> \<le> x / 2 ^ 1024" using xh by (simp add: divide_right_mono)
    also have "\<dots> \<le> x / r"
    proof (rule frac_le)
      show "0 \<le> x" using xh by simp
      show "r \<le> 2 ^ 1024" using r(3) by (rule less_imp_le)
    qed (use rpos in simp_all)
    finally show ?thesis .
  qed
  with small have le: "2 powi (- 1074) \<le> x / r" by linarith
  from q have "0 < x / r / 2" by simp
  from this round_to_ulp_lower[OF le]
  have w: "0 < round_to_ulp (x / r)" by (rule less_le_trans)
  from c' fl_pos_cases[OF q] have "k = \<lceil>round_to_ulp (x / r)\<rceil>" by auto
  with w show ?thesis by simp
qed

subsection \<open>One staff list per facility\<close>

lemma assign_facility_staff_all2:
  "assign_facility_staff sd fcs fs fu st g = Inr (fs', fu', st', g')
   \<Longrightarrow> \<exists>new. fu' = fu @ new
          \<and> list_all2 (\<lambda>fc nu. \<exists>ns s g s' g'. staff_facility sd fc s g = Inr (ns, nu, s', g')) fcs new"
proof (induction fcs arbitrary: fs fu st g)
  case Nil
  then show ?case by simp
next
  case (Cons fc fcs)
  from Cons.prems(1) obtain ns nu st1 g1 where d: "staff_facility sd fc st g = Inr (ns, nu, st1, g1)"
    and r: "assign_facility_staff sd fcs (fs @ [ns]) (fu @ [nu]) st1 g1 = Inr (fs', fu', st', g')"
    by (auto split: sum.splits)
  from Cons.IH[OF r] obtain new where n: "fu' = (fu @ [nu]) @ new"
    and a: "list_all2 (\<lambda>fc nu. \<exists>ns s g s' g'. staff_facility sd fc s g = Inr (ns, nu, s', g')) fcs new"
    by blast
  from d have "\<exists>ns s g s' g'. staff_facility sd fc s g = Inr (ns, nu, s', g')" by blast
  with a have "list_all2 (\<lambda>fc nu. \<exists>ns s g s' g'. staff_facility sd fc s g = Inr (ns, nu, s', g'))
          (fc # fcs) (nu # new)"
    by simp
  with n show ?case by (intro exI[of _ "nu # new"]) simp
qed

lemma staff_facility_count:
  assumes "staff_facility sd fc st g = Inr (ns, nu, st', g')"
  shows "\<exists>sb g1 sb_range n_staff.
           random_choice_p (sorted_keys (KC_ratio_distr sd))
             (values_at (KC_ratio_distr sd) (sorted_keys (KC_ratio_distr sd))) g = Inr (sb, g1)
           \<and> KC_ratio_brackets sd sb = Some sb_range
           \<and> staff_count (np_mean sd) (length fc) sb_range = Inr n_staff
           \<and> length nu = nat n_staff \<and> length ns = length nu"
proof -
  from assms obtain sb g1 sb_range n_staff where
    c: "random_choice_p (sorted_keys (KC_ratio_distr sd))
          (values_at (KC_ratio_distr sd) (sorted_keys (KC_ratio_distr sd))) g = Inr (sb, g1)"
    and b: "KC_ratio_brackets sd sb = Some sb_range"
    and n: "staff_count (np_mean sd) (length fc) sb_range = Inr n_staff"
    and d: "draw_staff (staff_age_range sd) (nat n_staff) [] [] st g1 = Inr (ns, nu, st', g')"
    by (auto simp: staff_facility_def split: sum.splits option.splits)
  from draw_staff_length[OF d] c b n show ?thesis by auto
qed

subsection \<open>Evaluating the small population\<close>

lemma example_range: "staff_age_range example_staffing = [30, 31]"
  by (simp add: staff_age_range_def example_staffing_def upto.simps)

lemma example_ratio_choice:
  "random_choice_p (sorted_keys (KC_ratio_distr example_staffing))
     (values_at (KC_ratio_distr example_staffing) (sorted_keys (KC_ratio_distr example_staffing)))
     (\<lambda>_. 0) = Inr (0, \<lambda>_. 0)"
  by (simp add: example_staffing_def sorted_keys_def values_at_def random_choice_p_def)

lemma example_bracket: "KC_ratio_brackets example_staffing 0 = Some [3]"
  by (simp add: example_staffing_def)

lemma example_mean: "np_mean example_staffing = rounded_mean"
  by (simp add: example_staffing_def)

lemma rounded_mean_3: "rounded_mean [3] = Finite 3"
  by (simp add: rounded_mean_def fl_eval)

lemma example_count_0: "staff_count (np_mean example_staffing) 0 [3] = Inr 0"
  by (simp add: staff_count_def example_mean rounded_mean_3 fl_eval)

lemma example_count_1: "staff_count (np_mean example_staffing) (Suc 0) [3] = Inr 1"
  by (simp add: staff_count_def example_mean rounded_mean_3 fl_eval)

lemma example_count_2: "staff_count (np_mean example_staffing) (Suc (Suc 0)) [3] = Inr 2"
  by (simp add: staff_count_def example_mean rounded_mean_3 fl_eval)

lemma example_draw:
  "draw_staff_member [30, 31] example_pools (\<lambda>_. 0)
     = Inr (30, 1,
            example_pools\<lparr>potential_worker_uids_by_age :=
                             (potential_worker_uids_by_age example_pools)(30 \<mapsto> []),
                           potential_worker_uids := (potential_worker_uids example_pools)(1 := None),
                           workers_by_age_to_assign_count :=
                             (workers_by_age_to_assign_count example_pools)(30 \<mapsto> 0)\<rparr>,
            \<lambda>_. 0)"
  by (simp add: draw_staff_member_def choose_staff_age_def random_choice_p_def example_pools_def)

lemma example_staff_facility:
  "\<exists>st'. staff_facility example_staffing [60::int] example_pools (\<lambda>_. 0)
           = Inr ([30], [1], st', \<lambda>_. 0)"
  by (simp add: staff_facility_def example_ratio_choice example_bracket example_range example_draw
      example_count_0 example_count_1 example_count_2)

lemma example_counts_nonneg: "counts_nonneg example_pools"
  by (auto simp: counts_nonneg_def example_pools_def split: if_splits)

lemma example_removal:
  "\<exists>st'. remove_residents_from_workers example_age_by_uid [[0]] example_pools = Inr st'"
  by (simp add: remove_residents_from_workers_def remove_resident_def example_age_by_uid_def
      example_pools_def)

lemma random_choice_in: "random_choice a g = Inr (x, g') \<Longrightarrow> x \<in> set a"
  by (auto simp: random_choice_def split: if_splits prod.splits)

text \<open>
  With a single staff age, the draw succeeds as long as the age has uids listed and a
  count left.
\<close>

lemma draw_staff_single_age:
  assumes "potential_worker_uids_by_age st a = Some l"
    and "workers_by_age_to_assign_count st a = Some c"
    and "k \<le> length l" and "int k \<le> c"
  shows "\<exists>ns nu st' g'. draw_staff [a] k ns0 nu0 st g = Inr (ns, nu, st', g')
           \<and> length nu = length nu0 + k"
  using assms
proof (induction k arbitrary: st l c ns0 nu0 g)
  case 0
  then show ?case by simp
next
  case (Suc k)
  from Suc.prems(3) obtain uid rest where l: "l = uid # rest" by (cases l) auto
  from Suc.prems(4) have c: "0 < c" by simp
  then have ch: "choose_staff_age [a] (workers_by_age_to_assign_count st) g = Inr (a, snd (rng_draw g))"
    using Suc.prems(2)
    by (simp add: choose_staff_age_def random_choice_p_def split: prod.splits)
  define st1 where "st1 = st\<lparr>potential_worker_uids_by_age :=
                               (potential_worker_uids_by_age st)(a \<mapsto> remove1 uid (uid # rest)),
                             potential_worker_uids := (potential_worker_uids st)(uid := None),
                             workers_by_age_to_assign_count :=
                               (workers_by_age_to_assign_count st)(a \<mapsto> c - 1)\<rparr>"
  from ch Suc.prems(1,2) l have m: "draw_staff_member [a] st g = Inr (a, uid, st1, snd (rng_draw g))"
    by (simp add: draw_staff_member_def st1_def)
  have "potential_worker_uids_by_age st1 a = Some rest"
    and "workers_by_age_to_assign_count st1 a = Some (c - 1)"
    by (simp_all add: st1_def)
  moreover from Suc.prems(3,4) l have "k \<le> length rest" "int k \<le> c - 1" by simp_all
  ultimately obtain ns nu st' g' where
    "draw_staff [a] k (ns0 @ [a]) (nu0 @ [uid]) st1 (snd (rng_draw g)) = Inr (ns, nu, st', g')"
    and "length nu = length (nu0 @ [uid]) + k"
    using Suc.IH by blast
  with m show ?case by simp
qed

subsection \<open>The claims on the remaining counts and on facility staff\<close>

text \<open>
  C4, as amended. The remaining-count dictionary \<^verbatim>\<open>workers_by_age_to_assign_count\<close>
  never becomes negative in the stages of \<^verbatim>\<open>generate\<close>: started with non-negative
  counts, the removal of facility residents (which decrements a count only when it is
  positive) and the drawing of facility staff (which picks only ages of positive count)
  both leave every count non-negative whenever they succeed.
\<close>

theorem counts_never_negative:
  assumes "counts_nonneg st"
  shows "(remove_residents_from_workers abu fbu st = Inr st1 \<longrightarrow> counts_nonneg st1)
         \<and> (assign_facility_staff sd fcs fs fu st g = Inr (fs', fu', st2, g') \<longrightarrow> counts_nonneg st2)"
  using assms remove_residents_nonneg assign_facility_staff_nonneg by blast

theorem counts_never_negative_witness:
  "counts_nonneg example_pools
   \<and> (\<exists>st1. remove_residents_from_workers example_age_by_uid [[0]] example_pools = Inr st1
            \<and> counts_nonneg st1)
   \<and> (\<exists>fs' fu' st2 g'. assign_facility_staff example_staffing [[60::int]] [] [] example_pools (\<lambda>_. 0)
                           = Inr (fs', fu', st2, g')
            \<and> counts_nonneg st2)"
proof -
  from example_removal obtain st1 where
    r: "remove_residents_from_workers example_age_by_uid [[0]] example_pools = Inr st1" by blast
  from example_staff_facility obtain st2 where
    "staff_facility example_staffing [60::int] example_pools (\<lambda>_. 0) = Inr ([30], [1], st2, \<lambda>_. 0)"
    by blast
  then have s: "assign_facility_staff example_staffing [[60::int]] [] [] example_pools (\<lambda>_. 0)
                  = Inr ([[30]], [[1]], st2, \<lambda>_. 0)"
    by simp
  from counts_never_negative[OF example_counts_nonneg,
      of example_age_by_uid "[[0]]" st1 example_staffing "[[60::int]]" "[]" "[]" "\<lambda>_. 0"
         "[[30]]" "[[1]]" st2 "\<lambda>_. 0"] r s
  have "counts_nonneg st1" "counts_nonneg st2" by blast+
  with r s example_counts_nonneg show ?thesis by blast
qed

text \<open>
  The claim as stated fails in the staff stage: there is no clamp there. With a potential
  worker of age 30 in the pool and no count left at the staff ages, the draw raises
  ValueError instead of taking the worker and keeping the count at zero.
\<close>

theorem staff_draw_does_not_clamp:
  "counts_nonneg example_pools_no_count
   \<and> potential_worker_uids_by_age example_pools_no_count 30 = Some [1]
   \<and> draw_staff_member (staff_age_range example_staffing) example_pools_no_count (\<lambda>_. 0)
       = Inl ValueError
   \<and> staff_facility example_staffing [60::int] example_pools_no_count (\<lambda>_. 0) = Inl ValueError"
proof -
  have a: "counts_nonneg example_pools_no_count"
    by (auto simp: counts_nonneg_def example_pools_no_count_def example_pools_def split: if_splits)
  have b: "potential_worker_uids_by_age example_pools_no_count 30 = Some [1]"
    by (simp add: example_pools_no_count_def example_pools_def)
  have c: "draw_staff_member (staff_age_range example_staffing) example_pools_no_count (\<lambda>_. 0)
             = Inl ValueError"
    by (simp add: example_range draw_staff_member_def choose_staff_age_def
        example_pools_no_count_def example_pools_def)
  have d: "staff_facility example_staffing [60::int] example_pools_no_count (\<lambda>_. 0) = Inl ValueError"
    using c
    by (simp add: staff_facility_def example_ratio_choice example_bracket example_range
        example_count_0 example_count_1 example_count_2)
  from a b c d show ?thesis by (intro conjI)
qed

text \<open>
  C5, as amended. For a facility with \<open>length fc\<close> residents whose staff is drawn
  successfully, the number of staff drawn is the ceiling of a quotient of doubles: the
  number of residents, as a double, divided by the double nearest to a third of the
  ratio, where the ratio is the mean (as numpy computes it) of the bracket sampled from
  the ratio distribution. Each of the two divisions rounds to the nearest double.
\<close>

theorem staff_count_is_rounded_ceiling:
  assumes "staff_facility sd fc st g = Inr (new_staff, new_staff_uids, st', g')"
  shows "\<exists>sb g1 sb_range x q.
           random_choice_p (sorted_keys (KC_ratio_distr sd))
             (values_at (KC_ratio_distr sd) (sorted_keys (KC_ratio_distr sd))) g = Inr (sb, g1)
           \<and> KC_ratio_brackets sd sb = Some sb_range
           \<and> fl (of_nat (length fc)) = Finite x
           \<and> fdiv (Finite x) (fdiv (np_mean sd sb_range) (Finite 3)) = Finite q
           \<and> length new_staff_uids = nat \<lceil>q\<rceil>
           \<and> length new_staff = nat \<lceil>q\<rceil>"
proof -
  from staff_facility_count[OF assms] obtain sb g1 sb_range n_staff where
    c: "random_choice_p (sorted_keys (KC_ratio_distr sd))
          (values_at (KC_ratio_distr sd) (sorted_keys (KC_ratio_distr sd))) g = Inr (sb, g1)"
    and b: "KC_ratio_brackets sd sb = Some sb_range"
    and n: "staff_count (np_mean sd) (length fc) sb_range = Inr n_staff"
    and l: "length new_staff_uids = nat n_staff" "length new_staff = length new_staff_uids"
    by blast
  from n obtain x where x: "fl (of_nat (length fc)) = Finite x"
    by (auto simp: staff_count_def split: pyfloat.splits)
  with n have "py_ceil (fdiv (Finite x) (fdiv (np_mean sd sb_range) (Finite 3))) = Inr n_staff"
    by (simp add: staff_count_def)
  then obtain q where q: "fdiv (Finite x) (fdiv (np_mean sd sb_range) (Finite 3)) = Finite q"
    and k: "n_staff = \<lceil>q\<rceil>"
    by (cases "fdiv (Finite x) (fdiv (np_mean sd sb_range) (Finite 3))") auto
  from c b x q k l show ?thesis by auto
qed

theorem staff_count_is_rounded_ceiling_witness:
  "\<exists>st'. staff_facility example_staffing [60::int] example_pools (\<lambda>_. 0)
            = Inr ([30], [1], st', \<lambda>_. 0)
        \<and> (\<exists>sb sb_range x q. KC_ratio_brackets example_staffing sb = Some sb_range
             \<and> fl (of_nat (length [60::int])) = Finite x
             \<and> fdiv (Finite x) (fdiv (np_mean example_staffing sb_range) (Finite 3)) = Finite q
             \<and> length [1::int] = nat \<lceil>q\<rceil>)"
proof -
  from example_staff_facility obtain st' where
    s: "staff_facility example_staffing [60::int] example_pools (\<lambda>_. 0) = Inr ([30], [1], st', \<lambda>_. 0)"
    by blast
  from staff_count_is_rounded_ceiling[OF s] s show ?thesis by blast
qed

text \<open>
  The claim as stated fails: the quotient is rounded before the ceiling is taken. For 65
  residents and the ratio 13 the exact quotient is \<open>65 / (13 / 3) = 15\<close>, but the double
  nearest to \<open>13 / 3\<close> lies below \<open>13 / 3\<close>, the quotient of doubles lies above 15, and 16
  staff are drawn.
\<close>

theorem staff_count_exceeds_exact_ceiling:
  "KC_ratio_brackets ratio_13_staffing 0 = Some [13]
   \<and> np_mean ratio_13_staffing [13] = Finite 13
   \<and> (\<exists>new_staff new_staff_uids st' g'.
         staff_facility ratio_13_staffing (replicate 65 (80::int)) twenty_workers (\<lambda>_. 0)
           = Inr (new_staff, new_staff_uids, st', g')
         \<and> length new_staff_uids = 16)
   \<and> \<lceil>(65::rat) / (13 / 3)\<rceil> = 15"
proof -
  have a: "KC_ratio_brackets ratio_13_staffing 0 = Some [13]"
    by (simp add: ratio_13_staffing_def)
  have m: "np_mean ratio_13_staffing [13] = Finite 13"
    by (simp add: ratio_13_staffing_def rounded_mean_def fl_eval)
  have c: "random_choice_p (sorted_keys (KC_ratio_distr ratio_13_staffing))
             (values_at (KC_ratio_distr ratio_13_staffing) (sorted_keys (KC_ratio_distr ratio_13_staffing)))
             (\<lambda>_. 0) = Inr (0, \<lambda>_. 0)"
    by (simp add: ratio_13_staffing_def sorted_keys_def values_at_def random_choice_p_def)
  have n: "staff_count (np_mean ratio_13_staffing) 65 [13] = Inr 16"
    by (simp add: staff_count_def m fl_eval)
  have r: "staff_age_range ratio_13_staffing = [30]"
    by (simp add: staff_age_range_def ratio_13_staffing_def upto.simps)
  have "\<exists>ns nu st' g'. draw_staff [30] 16 [] [] twenty_workers (\<lambda>_. 0) = Inr (ns, nu, st', g')
          \<and> length nu = length ([]::uid list) + 16"
    by (rule draw_staff_single_age[where l = "map int [100..<120]" and c = 20])
       (simp_all add: twenty_workers_def)
  then obtain ns nu st' g' where
    d: "draw_staff [30] 16 [] [] twenty_workers (\<lambda>_. 0) = Inr (ns, nu, st', g')"
    and l: "length nu = 16" by auto
  from c a n r d have
    "staff_facility ratio_13_staffing (replicate 65 (80::int)) twenty_workers (\<lambda>_. 0)
       = Inr (ns, nu, st', g')"
    by (simp add: staff_facility_def)
  with l have e: "\<exists>new_staff new_staff_uids st' g'.
         staff_facility ratio_13_staffing (replicate 65 (80::int)) twenty_workers (\<lambda>_. 0)
           = Inr (new_staff, new_staff_uids, st', g')
         \<and> length new_staff_uids = 16" by blast
  have f: "\<lceil>(65::rat) / (13 / 3)\<rceil> = 15" by simp
  from a m e f show ?thesis by (intro conjI)
qed

text \<open>
  C6. When the potential-worker pool holds fewer uids at the staff ages than the staff
  count required for a facility, the drawing of staff for that facility raises an
  exception, and so does the staff stage as a whole: nothing is retried and no shorter
  staff list is returned.
\<close>

theorem insufficient_staff_supply_fails:
  assumes "random_choice_p (sorted_keys (KC_ratio_distr sd))
             (values_at (KC_ratio_distr sd) (sorted_keys (KC_ratio_distr sd))) g = Inr (sb, g1)"
    and "KC_ratio_brackets sd sb = Some sb_range"
    and "staff_count (np_mean sd) (length fc) sb_range = Inr n_staff"
    and "staff_supply (staff_age_range sd) st < nat n_staff"
  shows "\<exists>e. staff_facility sd fc st g = Inl e
             \<and> assign_facility_staff sd (fc # fcs) fstaff fstaff_uids st g = Inl e"
proof -
  have "distinct (staff_age_range sd)" by (simp add: staff_age_range_def)
  from draw_staff_insufficient[OF this assms(4)] obtain e where
    "draw_staff (staff_age_range sd) (nat n_staff) [] [] st g1 = Inl e" by blast
  with assms(1-3) have "staff_facility sd fc st g = Inl e"
    by (simp add: staff_facility_def)
  then show ?thesis by simp
qed

theorem insufficient_staff_supply_fails_witness:
  "staff_count (np_mean example_staffing) (length [60, 61::int]) [3] = Inr 2
   \<and> staff_supply (staff_age_range example_staffing) example_pools = 1
   \<and> (\<exists>e. staff_facility example_staffing [60, 61::int] example_pools (\<lambda>_. 0) = Inl e
           \<and> assign_facility_staff example_staffing [[60, 61::int]] [] [] example_pools (\<lambda>_. 0) = Inl e)"
proof -
  note b = example_bracket
  have c: "staff_count (np_mean example_staffing) (length [60, 61::int]) [3] = Inr 2"
    by (simp add: example_count_2)
  have d: "staff_supply (staff_age_range example_staffing) example_pools = 1"
    by (simp add: example_range staff_supply_def example_pools_def)
  then have d': "staff_supply (staff_age_range example_staffing) example_pools < nat 2" by simp
  from insufficient_staff_supply_fails[OF example_ratio_choice b c d', of "[]" "[]" "[]"]
  have e: "\<exists>e. staff_facility example_staffing [60, 61::int] example_pools (\<lambda>_. 0) = Inl e
           \<and> assign_facility_staff example_staffing [[60, 61::int]] [] [] example_pools (\<lambda>_. 0) = Inl e" .
  from c d e show ?thesis by (intro conjI)
qed

subsection \<open>Residents and staff of a facility\<close>

lemma place_residents_nonempty_aux:
  assumes "place_residents d b rs fs g = Some y"
  shows "(\<forall>sb sb_range. b sb = Some sb_range \<longrightarrow> (\<forall>s\<in>set sb_range. 1 \<le> s))
         \<longrightarrow> (\<forall>f\<in>set fs. f \<noteq> [])
         \<longrightarrow> (case y of Inl e \<Rightarrow> True | Inr (fs', g') \<Rightarrow> \<forall>f\<in>set fs'. f \<noteq> [])"
proof (rule place_residents.raw_induct
    [where P = "\<lambda>d b rs fs g y. (\<forall>sb sb_range. b sb = Some sb_range \<longrightarrow> (\<forall>s\<in>set sb_range. 1 \<le> s))
         \<longrightarrow> (\<forall>f\<in>set fs. f \<noteq> [])
         \<longrightarrow> (case y of Inl e \<Rightarrow> True | Inr (fs', g') \<Rightarrow> \<forall>f\<in>set fs'. f \<noteq> [])",
     OF _ assms], goal_cases)
  case (1 rec d b rs fs g y)
  show ?case
  proof (intro impI)
    assume sizes: "\<forall>sb sb_range. b sb = Some sb_range \<longrightarrow> (\<forall>s\<in>set sb_range. 1 \<le> s)"
      and ne: "\<forall>f\<in>set fs. f \<noteq> []"
    show "case y of Inl e \<Rightarrow> True | Inr (fs', g') \<Rightarrow> \<forall>f\<in>set fs'. f \<noteq> []"
    proof (cases "0 < length rs")
      case False
      with 1(2) ne show ?thesis by auto
    next
      case True
      show ?thesis
      proof (cases y)
        case (Inl e)
        then show ?thesis by simp
      next
        case (Inr r)
        with True 1(2) obtain sb sb_range g1 size0 g2 where
          b: "b sb = Some sb_range" and c: "random_choice sb_range g1 = Inr (size0, g2)"
          and rec: "rec d b (py_slice_from rs (if int (length rs) < size0 then int (length rs) else size0))
                  (fs @ [py_slice_to rs (if int (length rs) < size0 then int (length rs) else size0)]) g2
                = Some y"
          by (auto simp: Let_def split: sum.splits option.splits prod.splits)
        from random_choice_in[OF c] b sizes have "1 \<le> size0" by blast
        with True have "py_slice_to rs (if int (length rs) < size0 then int (length rs) else size0) \<noteq> []"
          by (auto simp: py_slice_to_def)
        with ne have "\<forall>f\<in>set (fs @ [py_slice_to rs (if int (length rs) < size0 then int (length rs) else size0)]). f \<noteq> []"
          by auto
        with 1(1)[OF rec] sizes show ?thesis by blast
      qed
    qed
  qed
qed

lemma place_residents_nonempty:
  assumes "\<forall>sb sb_range. b sb = Some sb_range \<longrightarrow> (\<forall>s\<in>set sb_range. 1 \<le> s)"
    and "place_residents d b rs [] g = Some (Inr (fs', g'))"
  shows "\<forall>f\<in>set fs'. f \<noteq> []"
  using place_residents_nonempty_aux[OF assms(2)] assms(1) by simp

lemma staff_facility_nonempty:
  assumes "\<forall>sb sb_range. KC_ratio_brackets sd sb = Some sb_range
             \<longrightarrow> (\<exists>v. np_mean sd sb_range = Finite v \<and> 0 < v \<and> v < 2 ^ 1024)"
    and "fc \<noteq> []"
    and "staff_facility sd fc st g = Inr (ns, nu, st', g')"
  shows "nu \<noteq> []"
proof -
  from staff_facility_count[OF assms(3)] obtain sb sb_range n_staff where
    b: "KC_ratio_brackets sd sb = Some sb_range"
    and n: "staff_count (np_mean sd) (length fc) sb_range = Inr n_staff"
    and l: "length nu = nat n_staff"
    by blast
  from assms(1) b obtain v where v: "np_mean sd sb_range = Finite v" "0 < v" "v < 2 ^ 1024"
    by blast
  from assms(2) have "1 \<le> length fc" by (simp add: Suc_le_eq)
  from staff_count_pos[OF this v n] l show ?thesis by auto
qed

text \<open>
  C7, as amended. When every size of every size bracket is at least 1, every facility that
  the placing loop creates has at least one resident; when moreover every ratio bracket has
  a positive mean (a positive double, as numpy computes it) and the staff stage succeeds,
  there is one staff list per facility and each holds at least one staff member.
\<close>

theorem facilities_have_residents_and_staff:
  assumes "\<forall>sb sb_range. b sb = Some sb_range \<longrightarrow> (\<forall>s\<in>set sb_range. 1 \<le> s)"
    and "place_residents d b residents [] g = Some (Inr (facs, g1))"
    and "\<forall>sb sb_range. KC_ratio_brackets sd sb = Some sb_range
           \<longrightarrow> (\<exists>v. np_mean sd sb_range = Finite v \<and> 0 < v \<and> v < 2 ^ 1024)"
    and "assign_facility_staff sd facs [] [] st g2
           = Inr (fstaff, fstaff_uids, st', g3)"
  shows "(\<forall>f\<in>set facs. 1 \<le> length f)
         \<and> length fstaff_uids = length facs
         \<and> (\<forall>nu\<in>set fstaff_uids. 1 \<le> length nu)"
proof -
  from place_residents_nonempty[OF assms(1,2)] have ne: "\<forall>f\<in>set facs. f \<noteq> []" .
  from assign_facility_staff_all2[OF assms(4)]
  have a: "list_all2 (\<lambda>fc nu. \<exists>ns s g s' g'. staff_facility sd fc s g = Inr (ns, nu, s', g'))
             facs fstaff_uids"
    by simp
  then have len: "length fstaff_uids = length facs"
    by (simp add: list_all2_lengthD)
  have "\<forall>nu\<in>set fstaff_uids. nu \<noteq> []"
  proof
    fix nu assume "nu \<in> set fstaff_uids"
    then obtain i where i: "i < length fstaff_uids" "fstaff_uids ! i = nu"
      by (auto simp: in_set_conv_nth)
    with a len obtain ns s g s' g' where
      sf: "staff_facility sd (facs ! i) s g = Inr (ns, nu, s', g')"
      by (auto simp: list_all2_conv_all_nth)
    from i len ne have "facs ! i \<noteq> []" by simp
    from staff_facility_nonempty[OF assms(3) this sf] show "nu \<noteq> []" .
  qed
  with ne len show ?thesis
    by (auto simp: Suc_le_eq)
qed

theorem facilities_have_residents_and_staff_witness:
  "place_residents [(0, 1)] [0 \<mapsto> [1]] [60] [] (\<lambda>_. 0) = Some (Inr ([[60]], \<lambda>_. 0))
   \<and> (\<exists>st' g3. assign_facility_staff example_staffing [[60::int]] [] [] example_pools (\<lambda>_. 0)
                  = Inr ([[30]], [[1]], st', g3))
   \<and> 1 \<le> length [60::int] \<and> 1 \<le> length [1::int]"
proof -
  have h1: "place_residents [(0, 1)] [0 \<mapsto> [1]] [60] [] (\<lambda>_. 0) = Some (Inr ([[60]], \<lambda>_. 0))"
    by (simp add: place_residents.simps random_choice_p_def random_choice_def sorted_keys_def
        values_at_def py_slice_to_def py_slice_from_def)
  have h0: "\<forall>sb sb_range. [0 \<mapsto> [1::int]] sb = Some sb_range \<longrightarrow> (\<forall>s\<in>set sb_range. 1 \<le> s)"
    by (auto split: if_splits)
  have h2: "\<forall>sb sb_range. KC_ratio_brackets example_staffing sb = Some sb_range
              \<longrightarrow> (\<exists>v. np_mean example_staffing sb_range = Finite v \<and> 0 < v \<and> v < 2 ^ 1024)"
    by (auto simp: example_staffing_def rounded_mean_3 split: if_splits)
  from example_staff_facility obtain st2 where
    "staff_facility example_staffing [60::int] example_pools (\<lambda>_. 0) = Inr ([30], [1], st2, \<lambda>_. 0)"
    by blast
  then have h3: "assign_facility_staff example_staffing [[60::int]] [] [] example_pools (\<lambda>_. 0)
                  = Inr ([[30]], [[1]], st2, \<lambda>_. 0)"
    by simp
  from facilities_have_residents_and_staff[OF h0 h1 h2 h3]
  have c: "1 \<le> length [60::int]" "1 \<le> length [1::int]" by simp_all
  from h1 h3 c show ?thesis by blast
qed

text \<open>
  The claim as stated fails: the size bracket may hold 0. With the bracket \<open>[0, 1]\<close> and a
  stream that picks 0 first, the loop creates a facility without residents while the
  resident list is non-empty, and the staff stage draws no staff for it.
\<close>

theorem facility_without_residents:
  "place_residents [(0, 1)] example_size_brackets [60] [] example_stream
     = Some (Inr ([[], [60]], \<lambda>_. 0))
   \<and> staff_facility example_staffing ([]::int list) example_pools (\<lambda>_. 0)
     = Inr ([], [], example_pools, \<lambda>_. 0)"
proof -
  have a: "place_residents [(0, 1)] example_size_brackets [60] [] example_stream
             = Some (Inr ([[], [60]], \<lambda>_. 0))"
    by (simp add: place_residents.simps random_choice_p_def random_choice_def sorted_keys_def
        values_at_def py_slice_to_def py_slice_from_def example_size_brackets_def
        example_stream_def rng_draw_def)
  have b: "staff_facility example_staffing ([]::int list) example_pools (\<lambda>_. 0)
             = Inr ([], [], example_pools, \<lambda>_. 0)"
    by (simp add: staff_facility_def example_ratio_choice example_bracket
        example_count_0 example_count_1 example_count_2)
  from a b show ?thesis by (intro conjI)
qed

subsection \<open>The order of the stages\<close>

lemma run_stages_append:
  "run_stages ext d (xs @ ys) st =
     (case run_stages ext d xs st of
        None \<Rightarrow> None
      | Some (Inl e) \<Rightarrow> Some (Inl e)
      | Some (Inr st') \<Rightarrow> run_stages ext d ys st')"
  by (induction xs arbitrary: st) (auto split: option.splits sum.splits)

lemma run_stages_snoc:
  assumes "run_stages ext d (xs @ [s]) st = Some (Inr st')"
  shows "\<exists>st1. run_stages ext d xs st = Some (Inr st1) \<and> run_stage ext d s st1 = Some (Inr st')"
  using assms by (auto simp: run_stages_append split: option.splits sum.splits)

lemma stages_before_teachers:
  "stages_before AssignTeachers
     = [PlaceResidents, GenerateHouseholds, AssignUids, AssignStudents, FindPotentialWorkers]
       @ [RemoveResidents]"
  by (simp add: stages_before_def generate_stages_def)

lemma stages_before_workplaces:
  "stages_before AssignWorkplaces
     = [PlaceResidents, GenerateHouseholds, AssignUids, AssignStudents, FindPotentialWorkers,
        RemoveResidents, AssignTeachers, AssignSchoolStaff] @ [AssignFacilityStaff]"
  by (simp add: stages_before_def generate_stages_def)

lemma residents_removed_at_teachers:
  assumes "run_stages ext d (stages_before AssignTeachers) s0 = Some (Inr sT)"
  shows "\<forall>u\<in>set (concat (facilities_by_uids sT)). potential_worker_uids (pools sT) u = None"
proof -
  from run_stages_snoc[OF assms[unfolded stages_before_teachers]] obtain st where
    "run_stage ext d RemoveResidents st = Some (Inr sT)" by blast
  then obtain p where
    r: "remove_residents_from_workers (age_by_uid_dic st) (facilities_by_uids st) (pools st) = Inr p"
    and sT: "sT = st\<lparr>pools := p\<rparr>"
    by (auto split: sum.splits)
  from remove_residents_removed[OF r] sT show ?thesis by simp
qed

lemma staff_removed_at_workplaces:
  assumes "run_stages ext d (stages_before AssignWorkplaces) s0 = Some (Inr sW)"
  shows "\<forall>u\<in>set (concat (facilities_staff_uids sW)). potential_worker_uids (pools sW) u = None"
proof -
  from run_stages_snoc[OF assms[unfolded stages_before_workplaces]] obtain st where
    "run_stage ext d AssignFacilityStaff st = Some (Inr sW)" by blast
  then obtain fs fsu p g1 where
    r: "assign_facility_staff (staffing d) (facilities st) [] [] (pools st) (rng_state st)
          = Inr (fs, fsu, p, g1)"
    and sW: "sW = st\<lparr>facilities_staff := fs, facilities_staff_uids := fsu, pools := p, rng_state := g1\<rparr>"
    by (auto split: sum.splits)
  from assign_facility_staff_removed[OF r] sW show ?thesis by simp
qed

subsection \<open>The small population, stage by stage\<close>

lemma example_distr: "KC_ratio_distr example_staffing = [(0, 1)]"
  by (simp add: example_staffing_def)

lemma example_run_to_teachers:
  "\<exists>sT. run_stages example_collaborators example_data (stages_before AssignTeachers)
           (initial_state (\<lambda>_. 0)) = Some (Inr sT)
        \<and> potential_worker_uids (pools sT) 1 = Some 30 \<and> facilities_by_uids sT = [[0]]"
  by (simp add: stages_before_def generate_stages_def initial_state_def example_collaborators_def
      example_data_def all_residents_of_def rng_draw_def place_residents.simps random_choice_p_def
      random_choice_def sorted_keys_def values_at_def py_slice_to_def py_slice_from_def
      generate_household_sizes_from_fixed_pop_size.simps n_nonltcf_def
      remove_residents_from_workers_def remove_resident_def example_pools_def)

lemma example_run_to_workplaces:
  "\<exists>sW. run_stages example_collaborators example_data (stages_before AssignWorkplaces)
           (initial_state (\<lambda>_. 0)) = Some (Inr sW)
        \<and> facilities_staff_uids sW = [[1]]"
  by (simp add: stages_before_def generate_stages_def initial_state_def example_collaborators_def
      example_data_def all_residents_of_def rng_draw_def place_residents.simps random_choice_p_def
      random_choice_def sorted_keys_def values_at_def py_slice_to_def py_slice_from_def
      generate_household_sizes_from_fixed_pop_size.simps n_nonltcf_def
      remove_residents_from_workers_def remove_resident_def example_pools_def
      staff_facility_def example_distr example_bracket example_range example_count_0 example_count_1 example_count_2
      draw_staff_member_def choose_staff_age_def)

lemma example_run:
  "\<exists>sF. generate_popdict example_collaborators example_data (\<lambda>_. 0) = Some (Inr sF)
        \<and> facilities_staff_uids sF = [[1]] \<and> facilities_by_uids sF = [[0]]
        \<and> homes_by_uids sF = [[1]]"
  by (simp add: Let_def generate_popdict_def generate_stages_def initial_state_def example_collaborators_def
      example_data_def all_residents_of_def rng_draw_def place_residents.simps random_choice_p_def
      random_choice_def sorted_keys_def values_at_def py_slice_to_def py_slice_from_def
      generate_household_sizes_from_fixed_pop_size.simps n_nonltcf_def
      remove_residents_from_workers_def remove_resident_def example_pools_def
      staff_facility_def example_distr example_bracket example_range example_count_0 example_count_1 example_count_2
      draw_staff_member_def choose_staff_age_def)

subsection \<open>The call of generate\<close>

text \<open>
  C2, on the code as it stands. No call of \<^verbatim>\<open>generate\<close> returns, whatever the globals
  of the module hold: the second statement (line 133) reads the global name
  \<^verbatim>\<open>spdata\<close>, which \<^verbatim>\<open>pop.py\<close> does not import, and then the local name
  \<^verbatim>\<open>datadir\<close>, which is not assigned before line 414. So every call raises an
  exception, and so does every construction of a \<^verbatim>\<open>Pop\<close>: no population dictionary is
  returned and \<^verbatim>\<open>self.popdict\<close> is never set. With the globals that \<^verbatim>\<open>pop.py\<close>
  binds and a logger whose \<^verbatim>\<open>debug\<close> returns, the exception is NameError; if
  \<^verbatim>\<open>spdata\<close> were bound to a module with the function, it would be UnboundLocalError.
\<close>

theorem generate_raises_at_line_133:
  "(\<exists>e. generate ext d globals verbose g = Some (Inl e))
   \<and> (\<exists>e. Pop_init ext d globals n max_contacts rand_seed g = Some (Inl e))
   \<and> (getattr lg ''debug'' = Inr f \<and> call f = Inr r
        \<longrightarrow> generate ext d (pop_module_globals sc sp lg cfg Pop) verbose g = Some (Inl NameError)
            \<and> Pop_init ext d (pop_module_globals sc sp lg cfg Pop) (Some k) max_contacts rand_seed g
                = Some (Inl NameError))
   \<and> (globals ''log'' = Some lg \<and> getattr lg ''debug'' = Inr f \<and> call f = Inr r
        \<and> globals ''spdata'' = Some spdata
        \<and> getattr spdata ''get_usa_long_term_care_facility_data'' = Inr get_data
        \<longrightarrow> generate ext d globals verbose g = Some (Inl UnboundLocalError))"
proof -
  have a: "\<exists>e. generate ext d globals verbose g = Some (Inl e)" for globals verbose g
    by (simp add: generate_def load_fast_def generate_frame_def split: sum.splits)
  have b: "\<exists>e. Pop_init ext d globals n max_contacts rand_seed g = Some (Inl e)"
  proof (cases n)
    case None
    then show ?thesis by (simp add: Pop_init_def)
  next
    case (Some k)
    from a obtain e where "generate ext d globals False (seeded ext rand_seed g) = Some (Inl e)"
      by blast
    with Some show ?thesis by (simp add: Pop_init_def)
  qed
  have c: "generate ext d (pop_module_globals sc sp lg cfg Pop) verbose g = Some (Inl NameError)"
    if "getattr lg ''debug'' = Inr f" "call f = Inr r" for verbose g
    using that by (simp add: generate_def load_global_def pop_module_globals_def)
  have e: "generate ext d globals verbose g = Some (Inl UnboundLocalError)"
    if "globals ''log'' = Some lg" "getattr lg ''debug'' = Inr f" "call f = Inr r"
      "globals ''spdata'' = Some spdata"
      "getattr spdata ''get_usa_long_term_care_facility_data'' = Inr get_data"
    using that by (simp add: generate_def load_global_def load_fast_def generate_frame_def)
  from a b c e show ?thesis by (simp add: Pop_init_def)
qed

theorem generate_raises_at_line_133_witness:
  "getattr logger ''debug'' = Inr (PyFunction None) \<and> call (PyFunction None) = Inr PyNone
   \<and> generate example_collaborators example_data
        (pop_module_globals (PyObject []) (PyObject []) logger (PyObject []) (PyObject [])) False (\<lambda>_. 0)
       = Some (Inl NameError)
   \<and> Pop_init example_collaborators example_data
        (pop_module_globals (PyObject []) (PyObject []) logger (PyObject []) (PyObject []))
        (Some 1000) None (Some 123) (\<lambda>_. 0)
       = Some (Inl NameError)
   \<and> generate example_collaborators example_data
        ((pop_module_globals (PyObject []) (PyObject []) logger (PyObject []) (PyObject []))
           (''spdata'' \<mapsto> PyObject [(''get_usa_long_term_care_facility_data'', PyFunction None)]))
        False (\<lambda>_. 0)
       = Some (Inl UnboundLocalError)"
proof -
  have l: "getattr logger ''debug'' = Inr (PyFunction None)" "call (PyFunction None) = Inr PyNone"
    by (simp_all add: logger_def)
  have g: "((pop_module_globals (PyObject []) (PyObject []) logger (PyObject []) (PyObject []))
              (''spdata'' \<mapsto> PyObject [(''get_usa_long_term_care_facility_data'', PyFunction None)]))
             ''log'' = Some logger"
    by (simp add: pop_module_globals_def)
  note t = generate_raises_at_line_133
    [where ext = example_collaborators and d = example_data
       and globals = "(pop_module_globals (PyObject []) (PyObject []) logger (PyObject []) (PyObject []))
           (''spdata'' \<mapsto> PyObject [(''get_usa_long_term_care_facility_data'', PyFunction None)])"
       and verbose = False and g = "\<lambda>_. 0" and max_contacts = None and rand_seed = "Some 123"
       and lg = logger and f = "PyFunction None" and r = PyNone and k = 1000
       and sc = "PyObject []" and sp = "PyObject []" and cfg = "PyObject []" and Pop = "PyObject []"
       and spdata = "PyObject [(''get_usa_long_term_care_facility_data'', PyFunction None)]"
       and get_data = "PyFunction None"]
  from t l g show ?thesis by simp
qed

subsection \<open>The contact layers\<close>

lemma group_contacts_iff:
  "b \<in> group_contacts keep groups a
     \<longleftrightarrow> (\<exists>grp\<in>set groups. a \<in> set grp \<and> b \<in> set grp \<and> b \<noteq> a \<and> keep (min a b) (max a b))"
  by (auto simp: group_contacts_def)

lemma group_contacts_sym: "b \<in> group_contacts keep groups a \<longleftrightarrow> a \<in> group_contacts keep groups b"
  by (auto simp: group_contacts_iff min.commute max.commute)

lemma group_contacts_irrefl: "a \<notin> group_contacts keep groups a"
  by (simp add: group_contacts_iff)

lemma set_list_group_contacts:
  "set (sorted_list_of_set (group_contacts keep groups a)) = group_contacts keep groups a"
  by (simp add: group_contacts_def)

lemma make_contacts_contacts:
  assumes "change_types (make_contacts_from_microstructure_objects keep abu hbu sbu tbu nbu wbu fbu fsu) a
             = Some pa"
  shows "set (contacts pa l) = group_contacts (keep l) (layer_groups hbu sbu tbu nbu wbu fbu fsu l) a"
  using assms
  by (auto simp: change_types_def make_contacts_from_microstructure_objects_def Let_def
      set_list_group_contacts split: option.splits)

lemma popdict_of_run:
  assumes "generate_popdict ext d g = Some (Inr st)"
  shows "\<exists>keep abu hbu sbu tbu nbu wbu fbu fsu.
           popdict st = make_contacts_from_microstructure_objects keep abu hbu sbu tbu nbu wbu fbu fsu"
proof -
  have "generate_stages
          = [PlaceResidents, GenerateHouseholds, AssignUids, AssignStudents, FindPotentialWorkers,
             RemoveResidents, AssignTeachers, AssignSchoolStaff, AssignFacilityStaff,
             AssignWorkplaces] @ [MakeContacts]"
    by (simp add: generate_stages_def)
  from run_stages_snoc[OF assms[unfolded generate_popdict_def this]] obtain s1 where
    "run_stage ext d MakeContacts s1 = Some (Inr st)" by blast
  then have "popdict st
      = make_contacts_from_microstructure_objects (contact_sampler ext (rng_state s1))
          (age_by_uid_dic s1)
          (py_slice_from (homes_by_uids s1) (int (length (facilities_by_uids s1))))
          (syn_school_uids s1) (syn_teacher_uids s1) (syn_non_teaching_staff_uids s1)
          (syn_workplace_uids s1) (facilities_by_uids s1) (facilities_staff_uids s1)"
    by (auto simp: Let_def)
  then show ?thesis by blast
qed

text \<open>
  C9. In the population dictionary that \<^verbatim>\<open>generate\<close> binds and the constructor
  converts, every layer is symmetric and irreflexive: for individuals \<open>a\<close> and \<open>b\<close>
  with records \<open>pa\<close> and \<open>pb\<close>, \<open>b\<close> is in the contact list of \<open>a\<close> for a
  layer exactly when \<open>a\<close> is in the contact list of \<open>b\<close> for that layer, and \<open>a\<close>
  is not in its own contact list.
\<close>

theorem contact_layers_symmetric:
  assumes "generate_popdict ext d g = Some (Inr st)"
    and "change_types (popdict st) a = Some pa"
    and "change_types (popdict st) b = Some pb"
  shows "(b \<in> set (contacts pa l) \<longleftrightarrow> a \<in> set (contacts pb l)) \<and> a \<notin> set (contacts pa l)"
proof -
  from popdict_of_run[OF assms(1)] obtain keep abu hbu sbu tbu nbu wbu fbu fsu where
    p: "popdict st = make_contacts_from_microstructure_objects keep abu hbu sbu tbu nbu wbu fbu fsu"
    by blast
  note q = assms(2,3)[unfolded p]
  have "set (contacts pa l) = group_contacts (keep l) (layer_groups hbu sbu tbu nbu wbu fbu fsu l) a"
    and "set (contacts pb l) = group_contacts (keep l) (layer_groups hbu sbu tbu nbu wbu fbu fsu l) b"
    by (rule make_contacts_contacts[OF q(1)], rule make_contacts_contacts[OF q(2)])
  then show ?thesis
    using group_contacts_sym group_contacts_irrefl by simp
qed

lemma example_run_people:
  "\<exists>sF. generate_popdict example_collaborators example_data (\<lambda>_. 0) = Some (Inr sF)
        \<and> (\<exists>pa. change_types (popdict sF) 0 = Some pa \<and> set (contacts pa Facility) = {1})
        \<and> (\<exists>pb. change_types (popdict sF) 1 = Some pb \<and> set (contacts pb Facility) = {0})"
  apply (simp add: Let_def generate_popdict_def generate_stages_def initial_state_def example_collaborators_def
      example_data_def all_residents_of_def rng_draw_def place_residents.simps random_choice_p_def
      random_choice_def sorted_keys_def values_at_def py_slice_to_def py_slice_from_def
      generate_household_sizes_from_fixed_pop_size.simps n_nonltcf_def
      remove_residents_from_workers_def remove_resident_def example_pools_def
      staff_facility_def example_distr example_bracket example_range example_count_0 example_count_1 example_count_2
      draw_staff_member_def choose_staff_age_def
      change_types_def make_contacts_from_microstructure_objects_def layer_groups_def
      merge_groups_def group_contacts_def)
  apply auto
  done

theorem contact_layers_symmetric_witness:
  "\<exists>sF pa pb.
     generate_popdict example_collaborators example_data (\<lambda>_. 0) = Some (Inr sF)
     \<and> change_types (popdict sF) 0 = Some pa \<and> change_types (popdict sF) 1 = Some pb
     \<and> 1 \<in> set (contacts pa Facility) \<and> 0 \<in> set (contacts pb Facility)
     \<and> 0 \<notin> set (contacts pa Facility)"
proof -
  from example_run_people obtain sF pa pb where
    f: "generate_popdict example_collaborators example_data (\<lambda>_. 0) = Some (Inr sF)"
    and a: "change_types (popdict sF) 0 = Some pa" "set (contacts pa Facility) = {1}"
    and b: "change_types (popdict sF) 1 = Some pb"
    by blast
  from contact_layers_symmetric[OF f a(1) b, of Facility] a(2)
  have "1 \<in> set (contacts pa Facility)" "0 \<in> set (contacts pb Facility)"
    "0 \<notin> set (contacts pa Facility)" by simp_all
  with f a(1) b show ?thesis by blast
qed

subsection \<open>The two pool dictionaries stay in step\<close>

lemma consistent_not_listed:
  "pools_consistent p \<Longrightarrow> potential_worker_uids p u = None \<Longrightarrow> \<not> listed_by_age p u"
  by (auto simp: pools_consistent_def listed_by_age_def)

lemma remove_resident_consistent:
  assumes "pools_consistent st" "remove_resident abu st uid = Inr st'"
  shows "pools_consistent st'"
proof (cases "potential_worker_uids st uid")
  case None
  with assms show ?thesis by (auto simp: remove_resident_def split: option.splits)
next
  case (Some a0)
  with assms(2) obtain aindex l where l: "potential_worker_uids_by_age st aindex = Some l" "uid \<in> set l"
    and by_age: "potential_worker_uids_by_age st' = (potential_worker_uids_by_age st)(aindex \<mapsto> remove1 uid l)"
    and pwu: "potential_worker_uids st' = (potential_worker_uids st)(uid := None)"
    by (auto simp: remove_resident_def split: option.splits if_splits)
  from assms(1)[unfolded pools_consistent_def] l(1)
  have "distinct l \<and> (\<forall>u\<in>set l. potential_worker_uids st u = Some aindex)"
    by blast
  then have dl: "distinct l" and al: "\<forall>u\<in>set l. potential_worker_uids st u = Some aindex"
    by blast+
  show ?thesis
    unfolding pools_consistent_def
  proof (intro allI impI)
    fix a l' assume h: "potential_worker_uids_by_age st' a = Some l'"
    show "distinct l' \<and> (\<forall>u\<in>set l'. potential_worker_uids st' u = Some a)"
    proof (cases "a = aindex")
      case True
      with h by_age have "l' = remove1 uid l" by simp
      with dl al True pwu show ?thesis by auto
    next
      case False
      with h by_age have h': "potential_worker_uids_by_age st a = Some l'" by simp
      with assms(1) have d': "distinct l'" and a': "\<forall>u\<in>set l'. potential_worker_uids st u = Some a"
        by (auto simp: pools_consistent_def)
      from a' al l(2) False have "uid \<notin> set l'" by auto
      with d' a' pwu show ?thesis by auto
    qed
  qed
qed

lemma remove_residents_consistent:
  assumes "pools_consistent st" "remove_residents_from_workers abu fbu st = Inr st'"
  shows "pools_consistent st'"
proof -
  have inner: "\<And>s fc s'. pools_consistent s \<Longrightarrow> for_each (remove_resident abu) fc s = Inr s'
                 \<Longrightarrow> pools_consistent s'"
    by (rule for_each_invariant[where I = pools_consistent]) (auto intro: remove_resident_consistent)
  show ?thesis
    using assms(2) unfolding remove_residents_from_workers_def
    by (rule for_each_invariant[where I = pools_consistent, rotated 2]) (auto intro: inner assms(1))
qed

lemma draw_staff_member_consistent:
  assumes "pools_consistent st" "draw_staff_member r st g = Inr (aindex, uid, st', g')"
  shows "pools_consistent st'"
proof -
  from assms(2) obtain rest where l: "potential_worker_uids_by_age st aindex = Some (uid # rest)"
    and by_age: "potential_worker_uids_by_age st' = (potential_worker_uids_by_age st)(aindex \<mapsto> rest)"
    and pwu: "potential_worker_uids st' = (potential_worker_uids st)(uid := None)"
    by (auto simp: draw_staff_member_def split: sum.splits option.splits list.splits)
  from assms(1)[unfolded pools_consistent_def] l
  have "distinct (uid # rest) \<and> (\<forall>u\<in>set (uid # rest). potential_worker_uids st u = Some aindex)"
    by blast
  then have dl: "distinct (uid # rest)"
    and al: "\<forall>u\<in>set (uid # rest). potential_worker_uids st u = Some aindex"
    by blast+
  show ?thesis
    unfolding pools_consistent_def
  proof (intro allI impI)
    fix a l' assume h: "potential_worker_uids_by_age st' a = Some l'"
    show "distinct l' \<and> (\<forall>u\<in>set l'. potential_worker_uids st' u = Some a)"
    proof (cases "a = aindex")
      case True
      with h by_age have "l' = rest" by simp
      with dl al True pwu show ?thesis by auto
    next
      case False
      with h by_age have h': "potential_worker_uids_by_age st a = Some l'" by simp
      with assms(1) have d': "distinct l'" and a': "\<forall>u\<in>set l'. potential_worker_uids st u = Some a"
        by (auto simp: pools_consistent_def)
      from a' al False have "uid \<notin> set l'" by auto
      with d' a' pwu show ?thesis by auto
    qed
  qed
qed

lemma draw_staff_consistent:
  "pools_consistent st \<Longrightarrow> draw_staff r k ns nu st g = Inr (ns', nu', st', g') \<Longrightarrow> pools_consistent st'"
proof (induction k arbitrary: ns nu st g)
  case 0
  then show ?case by simp
next
  case (Suc k)
  from Suc.prems(2) obtain a u st1 g1 where d: "draw_staff_member r st g = Inr (a, u, st1, g1)"
    and r: "draw_staff r k (ns @ [a]) (nu @ [u]) st1 g1 = Inr (ns', nu', st', g')"
    by (auto split: sum.splits)
  from Suc.IH[OF draw_staff_member_consistent[OF Suc.prems(1) d] r] show ?case .
qed

lemma staff_facility_consistent:
  "pools_consistent st \<Longrightarrow> staff_facility sd fc st g = Inr (ns', nu', st', g') \<Longrightarrow> pools_consistent st'"
  by (auto simp: staff_facility_def split: sum.splits option.splits dest: draw_staff_consistent)

lemma assign_facility_staff_consistent:
  "pools_consistent st \<Longrightarrow> assign_facility_staff sd fcs fs fu st g = Inr (fs', fu', st', g')
     \<Longrightarrow> pools_consistent st'"
proof (induction fcs arbitrary: fs fu st g)
  case Nil
  then show ?case by simp
next
  case (Cons fc fcs)
  from Cons.prems(2) obtain ns nu st1 g1 where d: "staff_facility sd fc st g = Inr (ns, nu, st1, g1)"
    and r: "assign_facility_staff sd fcs (fs @ [ns]) (fu @ [nu]) st1 g1 = Inr (fs', fu', st', g')"
    by (auto split: sum.splits)
  from Cons.IH[OF staff_facility_consistent[OF Cons.prems(1) d] r] show ?case .
qed

lemma stages_before_removal:
  "stages_before AssignTeachers = stages_before RemoveResidents @ [RemoveResidents]"
  by (simp add: stages_before_def generate_stages_def)

lemma stages_before_staff:
  "stages_before AssignWorkplaces = stages_before AssignFacilityStaff @ [AssignFacilityStaff]"
  by (simp add: stages_before_def generate_stages_def)

lemma residents_unlisted_at_teachers:
  assumes "run_stages ext d (stages_before RemoveResidents) s0 = Some (Inr sR)"
    and "pools_consistent (pools sR)"
    and "run_stages ext d (stages_before AssignTeachers) s0 = Some (Inr sT)"
  shows "\<forall>u\<in>set (concat (facilities_by_uids sT)). \<not> listed_by_age (pools sT) u"
proof -
  from run_stages_snoc[OF assms(3)[unfolded stages_before_removal]] assms(1)
  have "run_stage ext d RemoveResidents sR = Some (Inr sT)" by auto
  then obtain p where
    r: "remove_residents_from_workers (age_by_uid_dic sR) (facilities_by_uids sR) (pools sR) = Inr p"
    and sT: "sT = sR\<lparr>pools := p\<rparr>"
    by (auto split: sum.splits)
  from remove_residents_consistent[OF assms(2) r] have "pools_consistent p" .
  with residents_removed_at_teachers[OF assms(3)] sT show ?thesis
    by (auto dest: consistent_not_listed)
qed

lemma staff_unlisted_at_workplaces:
  assumes "run_stages ext d (stages_before AssignFacilityStaff) s0 = Some (Inr sS)"
    and "pools_consistent (pools sS)"
    and "run_stages ext d (stages_before AssignWorkplaces) s0 = Some (Inr sW)"
  shows "\<forall>u\<in>set (concat (facilities_staff_uids sW)). \<not> listed_by_age (pools sW) u"
proof -
  from run_stages_snoc[OF assms(3)[unfolded stages_before_staff]] assms(1)
  have "run_stage ext d AssignFacilityStaff sS = Some (Inr sW)" by auto
  then obtain fs fsu p g1 where
    r: "assign_facility_staff (staffing d) (facilities sS) [] [] (pools sS) (rng_state sS)
          = Inr (fs, fsu, p, g1)"
    and sW: "sW = sS\<lparr>facilities_staff := fs, facilities_staff_uids := fsu, pools := p, rng_state := g1\<rparr>"
    by (auto split: sum.splits)
  from assign_facility_staff_consistent[OF assms(2) r] have "pools_consistent p" .
  with staff_removed_at_workplaces[OF assms(3)] sW show ?thesis
    by (auto dest: consistent_not_listed)
qed

lemma example_pools_consistent: "pools_consistent example_pools"
  by (auto simp: pools_consistent_def example_pools_def split: if_splits)

lemma example_run_to_removal:
  "\<exists>sR. run_stages example_collaborators example_data (stages_before RemoveResidents)
           (initial_state (\<lambda>_. 0)) = Some (Inr sR)
        \<and> pools sR = example_pools"
  by (simp add: stages_before_def generate_stages_def initial_state_def example_collaborators_def
      example_data_def all_residents_of_def rng_draw_def place_residents.simps random_choice_p_def
      random_choice_def sorted_keys_def values_at_def py_slice_to_def py_slice_from_def
      generate_household_sizes_from_fixed_pop_size.simps n_nonltcf_def)

lemma example_run_to_staff:
  "\<exists>sS. run_stages example_collaborators example_data (stages_before AssignFacilityStaff)
           (initial_state (\<lambda>_. 0)) = Some (Inr sS)
        \<and> pools_consistent (pools sS)"
  by (simp add: stages_before_def generate_stages_def initial_state_def example_collaborators_def
      example_data_def all_residents_of_def rng_draw_def place_residents.simps random_choice_p_def
      random_choice_def sorted_keys_def values_at_def py_slice_to_def py_slice_from_def
      generate_household_sizes_from_fixed_pop_size.simps n_nonltcf_def
      remove_residents_from_workers_def remove_resident_def example_pools_def pools_consistent_def)

subsection \<open>The order of the stages and the pools\<close>

text \<open>
  C3, as amended. The stages run in the order facility residents, households, uids,
  students, potential workers, removal of the facility residents from the potential
  workers, teachers, other school staff, facility staff, workplaces, contacts. When the
  teachers are about to be drawn no facility resident is a potential worker any more; the
  facility staff are drawn after the teachers and the other school staff, and when the
  workplace workers are about to be drawn no facility staff member is a potential worker
  any more. Where the two pool dictionaries agree as the removal (the drawing of staff)
  starts, the residents (the staff) are on no by-age list either.
\<close>

theorem stage_order_and_pool_removal:
  "generate_stages
     = [PlaceResidents, GenerateHouseholds, AssignUids, AssignStudents, FindPotentialWorkers,
        RemoveResidents, AssignTeachers, AssignSchoolStaff, AssignFacilityStaff,
        AssignWorkplaces, MakeContacts]
   \<and> (run_stages ext d (stages_before AssignTeachers) s0 = Some (Inr sT)
        \<longrightarrow> (\<forall>u\<in>set (concat (facilities_by_uids sT)). potential_worker_uids (pools sT) u = None))
   \<and> (run_stages ext d (stages_before AssignWorkplaces) s0 = Some (Inr sW)
        \<longrightarrow> (\<forall>u\<in>set (concat (facilities_staff_uids sW)). potential_worker_uids (pools sW) u = None))
   \<and> (run_stages ext d (stages_before RemoveResidents) s0 = Some (Inr sR)
        \<and> pools_consistent (pools sR)
        \<and> run_stages ext d (stages_before AssignTeachers) s0 = Some (Inr sT)
        \<longrightarrow> (\<forall>u\<in>set (concat (facilities_by_uids sT)). \<not> listed_by_age (pools sT) u))
   \<and> (run_stages ext d (stages_before AssignFacilityStaff) s0 = Some (Inr sS)
        \<and> pools_consistent (pools sS)
        \<and> run_stages ext d (stages_before AssignWorkplaces) s0 = Some (Inr sW)
        \<longrightarrow> (\<forall>u\<in>set (concat (facilities_staff_uids sW)). \<not> listed_by_age (pools sW) u))"
proof (intro conjI impI)
  show "generate_stages
     = [PlaceResidents, GenerateHouseholds, AssignUids, AssignStudents, FindPotentialWorkers,
        RemoveResidents, AssignTeachers, AssignSchoolStaff, AssignFacilityStaff,
        AssignWorkplaces, MakeContacts]"
    by (simp add: generate_stages_def)
next
  assume "run_stages ext d (stages_before AssignTeachers) s0 = Some (Inr sT)"
  then show "\<forall>u\<in>set (concat (facilities_by_uids sT)). potential_worker_uids (pools sT) u = None"
    by (rule residents_removed_at_teachers)
next
  assume "run_stages ext d (stages_before AssignWorkplaces) s0 = Some (Inr sW)"
  then show "\<forall>u\<in>set (concat (facilities_staff_uids sW)). potential_worker_uids (pools sW) u = None"
    by (rule staff_removed_at_workplaces)
next
  assume "run_stages ext d (stages_before RemoveResidents) s0 = Some (Inr sR)
        \<and> pools_consistent (pools sR)
        \<and> run_stages ext d (stages_before AssignTeachers) s0 = Some (Inr sT)"
  then show "\<forall>u\<in>set (concat (facilities_by_uids sT)). \<not> listed_by_age (pools sT) u"
    using residents_unlisted_at_teachers by blast
next
  assume "run_stages ext d (stages_before AssignFacilityStaff) s0 = Some (Inr sS)
        \<and> pools_consistent (pools sS)
        \<and> run_stages ext d (stages_before AssignWorkplaces) s0 = Some (Inr sW)"
  then show "\<forall>u\<in>set (concat (facilities_staff_uids sW)). \<not> listed_by_age (pools sW) u"
    using staff_unlisted_at_workplaces by blast
qed

theorem stage_order_and_pool_removal_witness:
  "\<exists>sR sT sS sW.
     run_stages example_collaborators example_data (stages_before RemoveResidents)
       (initial_state (\<lambda>_. 0)) = Some (Inr sR)
     \<and> pools_consistent (pools sR)
     \<and> run_stages example_collaborators example_data (stages_before AssignTeachers)
         (initial_state (\<lambda>_. 0)) = Some (Inr sT)
     \<and> facilities_by_uids sT = [[0]] \<and> potential_worker_uids (pools sT) 0 = None
     \<and> \<not> listed_by_age (pools sT) 0
     \<and> run_stages example_collaborators example_data (stages_before AssignFacilityStaff)
         (initial_state (\<lambda>_. 0)) = Some (Inr sS)
     \<and> pools_consistent (pools sS)
     \<and> run_stages example_collaborators example_data (stages_before AssignWorkplaces)
          (initial_state (\<lambda>_. 0)) = Some (Inr sW)
     \<and> facilities_staff_uids sW = [[1]] \<and> potential_worker_uids (pools sW) 1 = None
     \<and> \<not> listed_by_age (pools sW) 1"
proof -
  from example_run_to_removal example_pools_consistent obtain sR where
    r: "run_stages example_collaborators example_data (stages_before RemoveResidents)
          (initial_state (\<lambda>_. 0)) = Some (Inr sR)" "pools_consistent (pools sR)"
    by auto
  from example_run_to_teachers obtain sT where
    t: "run_stages example_collaborators example_data (stages_before AssignTeachers)
          (initial_state (\<lambda>_. 0)) = Some (Inr sT)" "facilities_by_uids sT = [[0]]"
    by blast
  from example_run_to_staff obtain sS where
    s: "run_stages example_collaborators example_data (stages_before AssignFacilityStaff)
          (initial_state (\<lambda>_. 0)) = Some (Inr sS)" "pools_consistent (pools sS)"
    by blast
  from example_run_to_workplaces obtain sW where
    w: "run_stages example_collaborators example_data (stages_before AssignWorkplaces)
          (initial_state (\<lambda>_. 0)) = Some (Inr sW)" "facilities_staff_uids sW = [[1]]"
    by blast
  note inst = stage_order_and_pool_removal[of example_collaborators example_data
      "initial_state (\<lambda>_. 0)" sT sW sR sS]
  from inst t have c1: "potential_worker_uids (pools sT) 0 = None" by simp
  from inst w have c2: "potential_worker_uids (pools sW) 1 = None" by simp
  from inst r t have c3: "\<not> listed_by_age (pools sT) 0" by simp
  from inst s w have c4: "\<not> listed_by_age (pools sW) 1" by simp
  from r t s w c1 c2 c3 c4 show ?thesis by blast
qed

text \<open>
  The claim as stated fails for the facility staff: uid 1 of the small population is still
  a potential worker when the teachers are drawn, and is drawn as facility staff later.
\<close>

theorem staff_in_pool_when_teachers_drawn:
  "\<exists>sT sF.
     run_stages example_collaborators example_data (stages_before AssignTeachers)
       (initial_state (\<lambda>_. 0)) = Some (Inr sT)
     \<and> generate_popdict example_collaborators example_data (\<lambda>_. 0) = Some (Inr sF)
     \<and> 1 \<in> set (concat (facilities_staff_uids sF))
     \<and> potential_worker_uids (pools sT) 1 = Some 30"
proof -
  from example_run_to_teachers obtain sT where
    t: "run_stages example_collaborators example_data (stages_before AssignTeachers)
          (initial_state (\<lambda>_. 0)) = Some (Inr sT)" "potential_worker_uids (pools sT) 1 = Some 30"
    by blast
  from example_run obtain sF where
    f: "generate_popdict example_collaborators example_data (\<lambda>_. 0) = Some (Inr sF)"
       "facilities_staff_uids sF = [[1]]"
    by blast
  from f(2) have "1 \<in> set (concat (facilities_staff_uids sF))" by simp
  with t f(1) show ?thesis by blast
qed

subsection \<open>The sizes in a run of generate\<close>

lemma run_stage_keeps_sizes:
  assumes "s \<noteq> PlaceResidents" "s \<noteq> GenerateHouseholds"
    and "run_stage ext d s st = Some (Inr st')"
  shows "facilities st' = facilities st \<and> hh_sizes st' = hh_sizes st"
  using assms
  by (cases s) (auto simp: Let_def split: sum.splits prod.splits)

lemma run_stages_keep_sizes:
  "PlaceResidents \<notin> set ss \<Longrightarrow> GenerateHouseholds \<notin> set ss
   \<Longrightarrow> run_stages ext d ss st = Some (Inr st')
   \<Longrightarrow> facilities st' = facilities st \<and> hh_sizes st' = hh_sizes st"
proof (induction ss arbitrary: st)
  case Nil
  then show ?case by simp
next
  case (Cons s ss)
  from Cons.prems(3) obtain s1 where a: "run_stage ext d s st = Some (Inr s1)"
    and b: "run_stages ext d ss s1 = Some (Inr st')"
    by (auto split: option.splits sum.splits)
  from Cons.prems(1,2) have "s \<noteq> PlaceResidents" "s \<noteq> GenerateHouseholds" by auto
  from run_stage_keeps_sizes[OF this a] Cons.IH[OF _ _ b] Cons.prems(1,2) show ?case by simp
qed

text \<open>
  C1. In every run of \<^verbatim>\<open>generate\<close> that reaches the binding of \<^verbatim>\<open>popdict\<close>, the
  generated household sizes and the facility resident counts add up to the population
  size \<open>n\<close>: the facilities partition the resident list, and households are generated
  for exactly \<open>n_nonltcf\<close>, which is \<open>n\<close> minus the number of facility residents.
\<close>

theorem household_and_facility_sizes_sum:
  assumes "generate_popdict ext d g = Some (Inr st)"
  shows "sum_list (hh_sizes st) + int (sum_list (map length (facilities st))) = pop_n d
         \<and> sum_list (hh_sizes st) = n_nonltcf (pop_n d) (facilities st)"
proof -
  have split: "generate_stages
      = [PlaceResidents, GenerateHouseholds]
        @ [AssignUids, AssignStudents, FindPotentialWorkers, RemoveResidents, AssignTeachers,
           AssignSchoolStaff, AssignFacilityStaff, AssignWorkplaces, MakeContacts]"
    by (simp add: generate_stages_def)
  from assms[unfolded generate_popdict_def split run_stages_append]
  obtain s2 where
    a: "run_stages ext d [PlaceResidents, GenerateHouseholds] (initial_state g) = Some (Inr s2)"
    and b: "run_stages ext d [AssignUids, AssignStudents, FindPotentialWorkers, RemoveResidents,
              AssignTeachers, AssignSchoolStaff, AssignFacilityStaff, AssignWorkplaces, MakeContacts] s2
            = Some (Inr st)"
    by (auto split: option.splits sum.splits)
  from run_stages_keep_sizes[OF _ _ b]
  have keep: "facilities st = facilities s2" "hh_sizes st = hh_sizes s2" by simp_all
  from a obtain s1 where p: "run_stage ext d PlaceResidents (initial_state g) = Some (Inr s1)"
    and h: "run_stage ext d GenerateHouseholds s1 = Some (Inr s2)"
    by (auto split: option.splits sum.splits)
  from p obtain rs g1 g2 where
    pl: "place_residents (KC_resident_size_distr d) (KC_residents_size_brackets d) rs [] g1
           = Some (Inr (facilities s1, g2))"
    by (auto split: option.splits sum.splits prod.splits)
  from h obtain g3 g4 where
    hs: "generate_household_sizes_from_fixed_pop_size (n_nonltcf (pop_n d) (facilities s1))
           (household_size_distr d) g3 = Inr (hh_sizes s2, g4)"
    and f2: "facilities s2 = facilities s1"
    by (auto split: sum.splits prod.splits)
  from household_sizes_sum[OF hs] have "sum_list (hh_sizes s2) = n_nonltcf (pop_n d) (facilities s1)" .
  with keep f2 show ?thesis by (simp add: n_nonltcf_def)
qed

lemma example_run_sizes:
  "\<exists>sF. generate_popdict example_collaborators example_data (\<lambda>_. 0) = Some (Inr sF)
        \<and> hh_sizes sF = [1] \<and> facilities sF = [[60]]"
  by (simp add: Let_def generate_popdict_def generate_stages_def initial_state_def example_collaborators_def
      example_data_def all_residents_of_def rng_draw_def place_residents.simps random_choice_p_def
      random_choice_def sorted_keys_def values_at_def py_slice_to_def py_slice_from_def
      generate_household_sizes_from_fixed_pop_size.simps n_nonltcf_def
      remove_residents_from_workers_def remove_resident_def example_pools_def
      staff_facility_def example_distr example_bracket example_range example_count_0 example_count_1 example_count_2
      draw_staff_member_def choose_staff_age_def)

theorem household_and_facility_sizes_sum_witness:
  "\<exists>sF. generate_popdict example_collaborators example_data (\<lambda>_. 0) = Some (Inr sF)
        \<and> hh_sizes sF = [1] \<and> facilities sF = [[60]]
        \<and> sum_list (hh_sizes sF) + int (sum_list (map length (facilities sF))) = pop_n example_data"
proof -
  from example_run_sizes obtain sF where
    f: "generate_popdict example_collaborators example_data (\<lambda>_. 0) = Some (Inr sF)"
       "hh_sizes sF = [1]" "facilities sF = [[60]]"
    by blast
  from household_and_facility_sizes_sum[OF f(1)]
  have "sum_list (hh_sizes sF) + int (sum_list (map length (facilities sF))) = pop_n example_data"
    by (rule conjunct1)
  with f show ?thesis by blast
qed

end
